theory Spec2Isabelle
  imports Main
begin

section \<open>Shared vocabulary: log lines and JavaScript strings\<close>

text \<open>
  Both scripts write their log lines with the same \<open>log(message, level)\<close> helper
  (\<open>[timestamp] [LEVEL] message\<close>). A log line is recorded as an event carrying the
  level and the message; the timestamp is the wall clock and is left out.
\<close>

datatype level = INFO | ERROR

text \<open>
  Decimal printing of a number, as a template literal such as
  \<open>`... exited with code ${code}`\<close> does it.
\<close>

definition digitChar :: "nat \<Rightarrow> char" where
  "digitChar d = (''0123456789'' ! d)"

fun showNat :: "nat \<Rightarrow> string" where
  "showNat n = (if n < 10 then [digitChar n] else showNat (n div 10) @ [digitChar (n mod 10)])"

definition showInt :: "int \<Rightarrow> string" where
  "showInt i = (if i < 0 then CHR ''-'' # showNat (nat (- i)) else showNat (nat i))"

text \<open>
  JavaScript strings are modelled as lists of characters, restricted to ASCII: the
  library functions below follow \<open>String.prototype.includes\<close>, \<open>toLowerCase\<close>,
  \<open>trim\<close>, \<open>split\<close> with a one-character separator and \<open>Array.prototype.join\<close>
  on such strings. \<open>null\<close> and \<open>undefined\<close> are \<open>None\<close>.
\<close>

fun startsWith :: "string \<Rightarrow> string \<Rightarrow> bool" where
  "startsWith s [] = True"
| "startsWith [] (c # cs) = False"
| "startsWith (x # xs) (c # cs) = (x = c \<and> startsWith xs cs)"

fun includes_str :: "string \<Rightarrow> string \<Rightarrow> bool" where
  "includes_str [] sub = (sub = [])"
| "includes_str (x # xs) sub = (startsWith (x # xs) sub \<or> includes_str xs sub)"

definition toLowerChar :: "char \<Rightarrow> char" where
  "toLowerChar c =
     (case map_of (zip ''ABCDEFGHIJKLMNOPQRSTUVWXYZ'' ''abcdefghijklmnopqrstuvwxyz'') c of
        Some l \<Rightarrow> l
      | None \<Rightarrow> c)"

definition toLowerCase :: "string \<Rightarrow> string" where
  "toLowerCase s = map toLowerChar s"

definition isWhiteSpace :: "char \<Rightarrow> bool" where
  "isWhiteSpace c = (c \<in> set [CHR 0x09, CHR 0x0A, CHR 0x0B, CHR 0x0C, CHR 0x0D, CHR 0x20])"

definition trim :: "string \<Rightarrow> string" where
  "trim s = rev (dropWhile isWhiteSpace (rev (dropWhile isWhiteSpace s)))"

fun split :: "char \<Rightarrow> string \<Rightarrow> string list" where
  "split sep [] = [[]]"
| "split sep (x # xs) =
     (if x = sep then [] # split sep xs
      else (case split sep xs of
              [] \<Rightarrow> [[x]]
            | p # ps \<Rightarrow> (x # p) # ps))"

fun join :: "string \<Rightarrow> string list \<Rightarrow> string" where
  "join sep [] = []"
| "join sep [p] = p"
| "join sep (p # q # ps) = p @ sep @ join sep (q # ps)"

text \<open>
  Truthiness of an optional string (\<open>if (v)\<close>, \<open>!v\<close>, \<open>v || d\<close>): \<open>undefined\<close> and
  the empty string are falsy.
\<close>

definition truthy :: "string option \<Rightarrow> bool" where
  "truthy v = (case v of None \<Rightarrow> False | Some s \<Rightarrow> s \<noteq> [])"

definition orElse :: "string option \<Rightarrow> string \<Rightarrow> string" where
  "orElse v d = (if truthy v then (case v of Some s \<Rightarrow> s | None \<Rightarrow> d) else d)"

text \<open>How a template literal prints an optional string.\<close>

definition showStr :: "string option \<Rightarrow> string" where
  "showStr v = (case v of None \<Rightarrow> ''null'' | Some s \<Rightarrow> s)"

text \<open>
  The parsing both scripts apply to a comma-separated configuration value:
  \<open>v.split(',').map(s => s.trim()).filter(s => s.length > 0)\<close>.
\<close>

definition splitTrimmed :: "string \<Rightarrow> string list" where
  "splitTrimmed v = filter (\<lambda>s. length s > 0) (map trim (split CHR '','' v))"

section \<open>The polling scheduler (the monitor script)\<close>

text \<open>
  What the monitor reads of one \<open>new Date()\<close>: \<open>getDay()\<close> (0 = Sunday),
  \<open>getHours()\<close>, \<open>getMinutes()\<close> and \<open>toDateString()\<close>, all in local time.
\<close>

record date =
  getDay :: nat
  getHours :: nat
  getMinutes :: nat
  toDateString :: string

record clock_time =
  hour :: nat
  minute :: nat

definition CHECKIN_TIME :: clock_time where
  "CHECKIN_TIME = \<lparr>hour = 6, minute = 0\<rparr>"

definition CHECKOUT_TIME :: clock_time where
  "CHECKOUT_TIME = \<lparr>hour = 13, minute = 45\<rparr>"

definition WEEKDAYS :: "nat list" where
  "WEEKDAYS = [1, 2, 3, 4, 5]"

text \<open>
  The two module-level variables \<open>lastCheckinDate\<close> and \<open>lastCheckoutDate\<close>
  (\<open>null\<close> is \<open>None\<close>), passed explicitly.
\<close>

record monitor =
  lastCheckinDate :: "string option"
  lastCheckoutDate :: "string option"

text \<open>
  \<open>shouldRunCheckin()\<close> and \<open>shouldRunCheckout()\<close>: each reads the clock itself
  (the argument \<open>now\<close>), returns its verdict and leaves the marker updated.
\<close>

definition shouldRunCheckin :: "date \<Rightarrow> monitor \<Rightarrow> bool \<times> monitor" where
  "shouldRunCheckin now m =
     (if getDay now \<notin> set WEEKDAYS then (False, m)
      else if getHours now = hour CHECKIN_TIME \<and> getMinutes now = minute CHECKIN_TIME then
        (if lastCheckinDate m \<noteq> Some (toDateString now)
         then (True, m\<lparr>lastCheckinDate := Some (toDateString now)\<rparr>)
         else (False, m))
      else (False, m))"

definition shouldRunCheckout :: "date \<Rightarrow> monitor \<Rightarrow> bool \<times> monitor" where
  "shouldRunCheckout now m =
     (if getDay now \<notin> set WEEKDAYS then (False, m)
      else if getHours now = hour CHECKOUT_TIME \<and> getMinutes now = minute CHECKOUT_TIME then
        (if lastCheckoutDate m \<noteq> Some (toDateString now)
         then (True, m\<lparr>lastCheckoutDate := Some (toDateString now)\<rparr>)
         else (False, m))
      else (False, m))"

text \<open>
  What the monitor does that can be observed: log lines, and the spawn of the check-in
  script as a child process. \<open>runCheckinScript()\<close> takes no argument; the spawn event
  carries the call site (the target whose branch of the timer callback made the call),
  so that spawns can be counted per target.
\<close>

datatype target = CheckIn | CheckOut

datatype mevent = MLog level string | Spawn target

definition runCheckinScript :: "target \<Rightarrow> mevent list" where
  "runCheckinScript t = [MLog INFO ''Triggering check-in/check-out script...'', Spawn t]"

text \<open>
  One run of the \<open>setInterval\<close> callback. It reads the clock three times: \<open>now\<close> at
  its start (used by the midnight reset at its end), once inside \<open>shouldRunCheckin\<close>
  and once inside \<open>shouldRunCheckout\<close>; the three reads are the three components of
  the argument, in that order.
\<close>

type_synonym reads = "date \<times> date \<times> date"

definition tick :: "reads \<Rightarrow> monitor \<Rightarrow> mevent list \<times> monitor" where
  "tick r m =
     (case r of (now, nowIn, nowOut) \<Rightarrow>
       (case shouldRunCheckin nowIn m of (runIn, m1) \<Rightarrow>
         (case shouldRunCheckout nowOut m1 of (runOut, m2) \<Rightarrow>
            ((if runIn
              then MLog INFO ''Check-in time detected - Running check-in...'' # runCheckinScript CheckIn
              else [])
             @ (if runOut
                then MLog INFO ''Check-out time detected - Running check-out...'' # runCheckinScript CheckOut
                else [])
             @ (if getHours now = 0 \<and> getMinutes now = 0
                then [MLog INFO ''Daily reset - Ready for new check-in/check-out'']
                else []),
             (if getHours now = 0 \<and> getMinutes now = 0
              then m2\<lparr>lastCheckinDate := None, lastCheckoutDate := None\<rparr>
              else m2)))))"

text \<open>
  The monitor process. Its inputs are the timer firing, the two events of a spawned
  child (\<open>error\<close> with a message, \<open>exit\<close> with a code, \<open>null\<close> when a signal killed
  it) and a termination signal (SIGINT or SIGTERM), whose handler exits with code 0.
\<close>

datatype input = Tick reads | ChildError string | ChildExit "int option" | Signal

datatype process = Running monitor | Exited nat

definition showCode :: "int option \<Rightarrow> string" where
  "showCode c = (case c of None \<Rightarrow> ''null'' | Some i \<Rightarrow> showInt i)"

fun step :: "input \<Rightarrow> process \<Rightarrow> mevent list \<times> process" where
  "step i (Exited n) = ([], Exited n)"
| "step (Tick r) (Running m) = (case tick r m of (es, m') \<Rightarrow> (es, Running m'))"
| "step (ChildError msg) (Running m) =
     ([MLog ERROR (''Error running script: '' @ msg)], Running m)"
| "step (ChildExit c) (Running m) =
     (if c = Some 0
      then ([MLog INFO ''Check-in/check-out script completed successfully''], Running m)
      else ([MLog ERROR (''Check-in/check-out script exited with code '' @ showCode c)], Running m))"
| "step Signal (Running m) = ([MLog INFO ''Shutting down monitor...''], Exited 0)"

fun run :: "input list \<Rightarrow> process \<Rightarrow> mevent list \<times> process" where
  "run [] p = ([], p)"
| "run (i # ins) p =
     (case step i p of (es, p') \<Rightarrow> (case run ins p' of (es', p'') \<Rightarrow> (es @ es', p'')))"

text \<open>The number of spawns a trace holds for one target.\<close>

definition spawns :: "target \<Rightarrow> mevent list \<Rightarrow> nat" where
  "spawns t es = length (filter (\<lambda>e. e = Spawn t) es)"

text \<open>
  Vocabulary for the statements: the minute of the day a clock read shows, the clock
  reads of an input in program order, and the inputs that lie within one calendar day.
  Within one run of the callback the three reads are at most a minute apart.
\<close>

definition minuteOfDay :: "date \<Rightarrow> nat" where
  "minuteOfDay d = getHours d * 60 + getMinutes d"

fun readsOf :: "input \<Rightarrow> date list" where
  "readsOf (Tick (now, nowIn, nowOut)) = [now, nowIn, nowOut]"
| "readsOf i = []"

fun briefTick :: "input \<Rightarrow> bool" where
  "briefTick (Tick (now, nowIn, nowOut)) = (minuteOfDay nowOut \<le> minuteOfDay now + 1)"
| "briefTick i = True"

definition withinDay :: "string \<Rightarrow> input list \<Rightarrow> bool" where
  "withinDay d ins =
     (list_all (\<lambda>n. toDateString n = d) (concat (map readsOf ins))
      \<and> list_all briefTick ins
      \<and> sorted (map minuteOfDay (concat (map readsOf ins))))"

text \<open>
  Per target: its schedule, its last-run marker, and the clock read of a callback run
  that decides it.
\<close>

fun schedule :: "target \<Rightarrow> clock_time" where
  "schedule CheckIn = CHECKIN_TIME"
| "schedule CheckOut = CHECKOUT_TIME"

fun marker :: "target \<Rightarrow> monitor \<Rightarrow> string option" where
  "marker CheckIn m = lastCheckinDate m"
| "marker CheckOut m = lastCheckoutDate m"

fun readFor :: "target \<Rightarrow> reads \<Rightarrow> date" where
  "readFor CheckIn (now, nowIn, nowOut) = nowIn"
| "readFor CheckOut (now, nowIn, nowOut) = nowOut"

definition matches :: "target \<Rightarrow> date \<Rightarrow> bool" where
  "matches t n =
     (getDay n \<in> set WEEKDAYS \<and> getHours n = hour (schedule t) \<and> getMinutes n = minute (schedule t))"


section \<open>The network gate (the Wi-Fi checker script)\<close>

text \<open>
  \<open>isOnOfficeWiFi(expectedSSIDs)\<close> takes any JavaScript value; the documented ones are
  a string and an array of strings. \<open>getCurrentWiFiSSID()\<close> asks the operating system
  (every command it runs sits inside its own \<open>try/catch\<close>) and returns the SSID or
  \<open>null\<close>; its result is the second argument here. What \<open>isOnOfficeWiFi\<close> itself
  prints is recorded with the stream it goes to (the debug lines of
  \<open>getCurrentWiFiSSID\<close> are not).
\<close>

datatype jsvalue =
    Undefined | Null | Boolean bool | Number int | String string | Array "string list" | Object

datatype console = ConsoleLog string | ConsoleError string

fun falsy :: "jsvalue \<Rightarrow> bool" where
  "falsy Undefined = True"
| "falsy Null = True"
| "falsy (Boolean b) = (\<not> b)"
| "falsy (Number n) = (n = 0)"
| "falsy (String s) = (s = [])"
| "falsy (Array xs) = False"
| "falsy Object = False"

definition isOnOfficeWiFi :: "jsvalue \<Rightarrow> string option \<Rightarrow> console list \<times> bool" where
  "isOnOfficeWiFi expectedSSIDs detected =
     (if falsy expectedSSIDs then ([ConsoleError ''ERROR: Office Wi-Fi SSID not configured''], False)
      else
        (case (case expectedSSIDs of
                 Array xs \<Rightarrow> Some xs
               | String s \<Rightarrow> Some (splitTrimmed s)
               | _ \<Rightarrow> None) of
           None \<Rightarrow> ([ConsoleError ''ERROR: Invalid office Wi-Fi SSID format''], False)
         | Some officeSSIDs \<Rightarrow>
             if length officeSSIDs = 0
             then ([ConsoleError ''ERROR: No valid office Wi-Fi SSIDs configured''], False)
             else if \<not> truthy detected
             then ([ConsoleError ''ERROR: Could not detect current Wi-Fi network'',
                    ConsoleError ''DEBUG: Troubleshooting steps:'',
                    ConsoleError ''  1. Make sure you are connected to a Wi-Fi network'',
                    ConsoleError ''  2. Check Wi-Fi status: System Settings > Network'',
                    ConsoleError ''  3. Try running: /usr/sbin/networksetup -getairportnetwork en0'',
                    ConsoleError ''  4. If that fails, try: /usr/sbin/networksetup -listallhardwareports''],
                   False)
             else
               (let currentSSID = showStr detected;
                    isMatch = (currentSSID \<in> set officeSSIDs)
                in (if \<not> isMatch
                    then [ConsoleLog (''INFO: Current Wi-Fi ('' @ currentSSID
                                       @ '') does not match any office Wi-Fi networks''),
                          ConsoleLog (''INFO: Office Wi-Fi networks: '' @ join '', '' officeSSIDs)]
                    else [ConsoleLog (''INFO: Connected to office Wi-Fi ('' @ currentSSID @ '')'')],
                    isMatch))))"

text \<open>
  The expected set as the specification words it: a string is split at commas and each
  piece trimmed; an array is the set of its entries; any other value names no network.
\<close>

definition expectedSet :: "jsvalue \<Rightarrow> string set" where
  "expectedSet e =
     (case e of
        String s \<Rightarrow> set (map trim (split CHR '','' s))
      | Array xs \<Rightarrow> set xs
      | _ \<Rightarrow> {})"


section \<open>The check-in script\<close>

subsection \<open>Configuration, page and browser engine\<close>

text \<open>
  The environment variables the script reads (\<open>process.env\<close>, after \<open>dotenv\<close> has
  loaded the \<open>.env\<close> file); an unset variable is \<open>None\<close>.
\<close>

record env =
  env_ZOHO_EMAIL :: "string option"
  env_ZOHO_PASSWORD :: "string option"
  env_ZOHO_URL :: "string option"
  env_USE_GOOGLE_LOGIN :: "string option"
  env_USER_DATA_DIR :: "string option"
  env_USE_PERSISTENT_CONTEXT :: "string option"
  env_HEADLESS :: "string option"
  env_HEADED :: "string option"
  env_ZOHO_CHECKIN_URL :: "string option"
  env_CHECKIN_SELECTORS :: "string option"
  env_GOOGLE_LOGIN_SELECTORS :: "string option"

definition ZOHO_EMAIL :: "env \<Rightarrow> string option" where
  "ZOHO_EMAIL e = env_ZOHO_EMAIL e"

definition ZOHO_PASSWORD :: "env \<Rightarrow> string option" where
  "ZOHO_PASSWORD e = env_ZOHO_PASSWORD e"

definition ZOHO_URL :: "env \<Rightarrow> string" where
  "ZOHO_URL e = orElse (env_ZOHO_URL e)
     ''https://accounts.zoho.com/signin?servicename=zohopeople&signupurl=https://www.zoho.com/people/signup.html''"

definition USE_GOOGLE_LOGIN :: "env \<Rightarrow> bool" where
  "USE_GOOGLE_LOGIN e = (env_USE_GOOGLE_LOGIN e = Some ''true'' \<or> \<not> truthy (ZOHO_PASSWORD e))"

definition STORAGE_STATE_PATH :: string where
  "STORAGE_STATE_PATH = ''logs/zoho-auth-state.json''"

definition USER_DATA_DIR :: "env \<Rightarrow> string" where
  "USER_DATA_DIR e = orElse (env_USER_DATA_DIR e) ''logs/browser-data''"

definition USE_PERSISTENT_CONTEXT :: "env \<Rightarrow> bool" where
  "USE_PERSISTENT_CONTEXT e = (env_USE_PERSISTENT_CONTEXT e \<noteq> Some ''false'')"

text \<open>
  How a call into the browser engine or the file system ends: it returns a value (an
  awaited promise resolves) or it throws (the promise rejects) with a message.
\<close>

datatype 'a outcome = Resolved 'a | Rejected string

text \<open>
  An element handle, by what the script asks of it: \<open>isVisible()\<close>, \<open>textContent()\<close>
  and \<open>getAttribute('aria-label')\<close> (both \<open>null\<close> or a string),
  \<open>scrollIntoViewIfNeeded()\<close>, \<open>click()\<close>, \<open>fill(value)\<close>, and \<open>textContent()\<close>
  once more after the click. A page snapshot answers \<open>page.$(selector)\<close>: an element,
  \<open>null\<close>, or an exception. Within one phase of the run the answer depends on the
  selector only.
\<close>

type_synonym selector = string

record element =
  isVisible :: "bool outcome"
  textContent :: "string option outcome"
  ariaLabelAttribute :: "string option outcome"
  scrollIntoViewIfNeeded :: "unit outcome"
  click :: "unit outcome"
  fill :: "unit outcome"
  textContentAfterClick :: "string option outcome"

type_synonym page = "selector \<Rightarrow> element option outcome"

text \<open>
  Everything outside the script that one run observes, in the order the script asks:
  the files present, the outcome of each engine call, the address the page shows at
  each \<open>page.url()\<close>, and the page's content during login and on the action screen.
\<close>

record world =
  hasSavedState :: bool
  userDataDirExists :: bool
  mkdirSync :: "unit outcome"
  launch :: "unit outcome"
  newPage :: "unit outcome"
  setExtraHTTPHeaders :: "unit outcome"
  gotoLogin :: "unit outcome"
  landingUrl :: string
  loginPage :: page
  waitForEmailInput :: "unit outcome"
  pressEnter :: "unit outcome"
  postLoginUrl :: string
  storageState :: "unit outcome"
  urlBeforeAction :: string
  gotoCheckin :: "unit outcome"
  actionPage :: page
  screenshot :: "string \<Rightarrow> unit outcome"
  isoTimestamp :: string
  browserPages :: "nat outcome"
  closeBrowser :: "unit outcome"

text \<open>
  The trace of a run: log lines and the calls made to the engine and the file system.
  Reads of an element handle's properties leave no event.
\<close>

datatype event =
    Log level string
  | MkDir string
  | LaunchPersistentContext string bool
  | LaunchBrowser bool
  | NewPage
  | SetExtraHTTPHeaders
  | Goto string
  | WaitForTimeout nat
  | WaitForSelector selector
  | Query selector
  | ScrollIntoView selector
  | Click selector
  | Fill selector string
  | PressEnter
  | Screenshot string
  | SaveStorageState string
  | BrowserPages
  | CloseBrowser

text \<open>
  Exceptions: the script's own \<open>new Error(message)\<close> and the engine's rejections are
  \<open>Error\<close>; reading a property of \<open>null\<close> is a \<open>TypeError\<close>.
\<close>

datatype error = Error string | TypeError string

fun message :: "error \<Rightarrow> string" where
  "message (Error m) = m"
| "message (TypeError m) = m"

text \<open>
  A block of statements yields the events it made and then either a value or the
  exception that left it.
\<close>

type_synonym 'a block = "event list \<times> (error + 'a)"

definition ret :: "'a \<Rightarrow> 'a block" where
  "ret x = ([], Inr x)"

definition emit :: "event list \<Rightarrow> unit block" where
  "emit es = (es, Inr ())"

definition throw :: "error \<Rightarrow> 'a block" where
  "throw e = ([], Inl e)"

definition settle :: "'a outcome \<Rightarrow> 'a block" where
  "settle oc = ([], (case oc of Resolved x \<Rightarrow> Inr x | Rejected m \<Rightarrow> Inl (Error m)))"

definition await :: "event \<Rightarrow> 'a outcome \<Rightarrow> 'a block" where
  "await e oc = ([e], snd (settle oc))"

definition bindB :: "'a block \<Rightarrow> ('a \<Rightarrow> 'b block) \<Rightarrow> 'b block" where
  "bindB s f =
     (case s of
        (es, Inl e) \<Rightarrow> (es, Inl e)
      | (es, Inr x) \<Rightarrow> (case f x of (es', r) \<Rightarrow> (es @ es', r)))"

fun seqB :: "unit block list \<Rightarrow> unit block" where
  "seqB [] = ret ()"
| "seqB (s # ss) = bindB s (\<lambda>_. seqB ss)"

text \<open>\<open>promise.catch(() => v)\<close>: a rejection becomes the value \<open>v\<close>.\<close>

definition orCatch :: "'a outcome \<Rightarrow> 'a \<Rightarrow> 'a" where
  "orCatch oc v = (case oc of Resolved x \<Rightarrow> x | Rejected m \<Rightarrow> v)"

text \<open>
  The loop \<open>for (const selector of list) { try { ... break; } catch (err) { ... } }\<close>:
  the body reports whether it reached its \<open>break\<close>; the loop reports whether any did.
\<close>

fun forEachUntil :: "(selector \<Rightarrow> event list \<times> bool) \<Rightarrow> selector list \<Rightarrow> event list \<times> bool" where
  "forEachUntil body [] = ([], False)"
| "forEachUntil body (sel # rest) =
     (case body sel of
        (es, True) \<Rightarrow> (es, True)
      | (es, False) \<Rightarrow> (case forEachUntil body rest of (es', b) \<Rightarrow> (es @ es', b)))"


subsection \<open>\<open>handleGoogleLogin\<close>\<close>

definition defaultGoogleButtonSelectors :: "selector list" where
  \<open>defaultGoogleButtonSelectors =
     [''span[aria-label="Sign in with Google"]'',
      ''span.google_icon'',
      ''span[value="google"]'',
      ''.google_fed'',
      ''span.fed_div.google_icon'',
      ''button:has-text("Google")'',
      ''button:has-text("Sign in with Google")'',
      ''a:has-text("Google")'',
      ''a:has-text("Sign in with Google")'',
      ''[data-provider="google"]'',
      ''.google-signin'',
      ''button[aria-label*="Google"]'',
      ''a[aria-label*="Google"]'',
      ''span[aria-label*="Google"]'']\<close>

definition googleButtonSelectors :: "env \<Rightarrow> selector list" where
  "googleButtonSelectors e =
     (if truthy (env_GOOGLE_LOGIN_SELECTORS e)
      then splitTrimmed (showStr (env_GOOGLE_LOGIN_SELECTORS e))
      else defaultGoogleButtonSelectors)"

text \<open>One iteration of the loop over the Google selectors (the \<open>try\<close> and its \<open>catch\<close>).\<close>

definition tryGoogleButton :: "page \<Rightarrow> selector \<Rightarrow> event list \<times> bool" where
  "tryGoogleButton pg sel =
     (case bindB (emit [WaitForTimeout 1000]) (\<lambda>_.
           bindB (await (Query sel) (pg sel)) (\<lambda>googleButton.
             case googleButton of
               None \<Rightarrow> ret False
             | Some el \<Rightarrow>
                 if orCatch (isVisible el) False
                 then bindB (seqB
                        [emit [Log INFO (''Found Google login button using selector: '' @ sel)],
                         await (ScrollIntoView sel) (scrollIntoViewIfNeeded el),
                         emit [WaitForTimeout 500],
                         await (Click sel) (click el),
                         emit [Log INFO ''Clicked Google login button. Please complete authentication in the browser.'',
                               WaitForTimeout 3000]])
                        (\<lambda>_. ret True)
                 else bindB (emit [Log INFO (''Google button found with selector '' @ sel
                                              @ '' but not visible, trying next...'')])
                        (\<lambda>_. ret False))) of
        (es, Inr found) \<Rightarrow> (es, found)
      | (es, Inl err) \<Rightarrow>
          (es @ [Log INFO (''Error trying selector '' @ sel @ '': '' @ message err)], False))"

definition handleGoogleLogin :: "env \<Rightarrow> world \<Rightarrow> unit block" where
  "handleGoogleLogin e w =
     bindB (emit
        [Log INFO ''Looking for Google login button...'',
         (if truthy (env_GOOGLE_LOGIN_SELECTORS e)
          then Log INFO (''Using custom Google login selectors: '' @ join '', '' (googleButtonSelectors e))
          else Log INFO ''Using default Google login selectors'')]) (\<lambda>_.
     case forEachUntil (tryGoogleButton (loginPage w)) (googleButtonSelectors e) of
       (es, googleButtonFound) \<Rightarrow>
         seqB
           [emit es,
            (if \<not> googleButtonFound
             then seqB
               [emit [Log ERROR ''Could not find Google login button. Taking screenshot for debugging...''],
                await (Screenshot ''logs/google-button-not-found.png'')
                      (screenshot w ''logs/google-button-not-found.png''),
                emit [Log INFO ''Screenshot saved to logs/google-button-not-found.png for debugging''],
                (if env_HEADED e \<noteq> Some ''true''
                 then throw (Error ''Google login button not found. Please check the login page structure or set GOOGLE_LOGIN_SELECTORS in .env'')
                 else emit
                   [Log INFO ''Running in headed mode - please click Google login button manually'',
                    Log INFO ''Waiting 60 seconds for manual click...'',
                    WaitForTimeout 60000])]
             else ret ()),
            emit [Log INFO ''Waiting for Google OAuth authentication to complete...'',
                  WaitForTimeout 10000]])"

subsection \<open>\<open>handlePasswordLogin\<close>\<close>

definition emailInputSelector :: selector where
  \<open>emailInputSelector =
     ''input[type="email"], input[name="login_id"], input[id*="email"], input[id*="login"]''\<close>

definition emailSelectors :: "selector list" where
  \<open>emailSelectors =
     [''input[type="email"]'', ''input[name="login_id"]'', ''input[id*="email"]'',
      ''input[id*="login"]'', ''#login_id'', ''#email'']\<close>

definition nextButtonSelectors :: "selector list" where
  \<open>nextButtonSelectors =
     [''button:has-text("Next")'', ''button:has-text("Continue")'', ''button[type="submit"]'',
      ''#nextbtn'', ''.zgh-button'']\<close>

definition passwordSelectors :: "selector list" where
  \<open>passwordSelectors =
     [''input[type="password"]'', ''input[name="password"]'', ''#password'',
      ''input[id*="password"]'']\<close>

definition submitSelectors :: "selector list" where
  \<open>submitSelectors =
     [''button[type="submit"]'', ''button:has-text("Sign in")'', ''button:has-text("Login")'',
      ''#nextbtn'', ''input[type="submit"]'']\<close>

text \<open>
  One iteration of each of the four loops. The \<open>catch\<close> blocks are empty: an exception
  ends the iteration without a trace. The email loop fills the first element that
  \<open>page.$\<close> returns; the other three also ask \<open>isVisible()\<close>.
\<close>

definition swallow :: "bool block \<Rightarrow> event list \<times> bool" where
  "swallow b = (case b of (es, Inr done) \<Rightarrow> (es, done) | (es, Inl err) \<Rightarrow> (es, False))"

definition tryEmailField :: "page \<Rightarrow> string \<Rightarrow> selector \<Rightarrow> event list \<times> bool" where
  "tryEmailField pg email sel =
     swallow (bindB (await (Query sel) (pg sel)) (\<lambda>emailField.
       case emailField of
         None \<Rightarrow> ret False
       | Some el \<Rightarrow>
           bindB (await (Fill sel email) (fill el)) (\<lambda>_.
           bindB (emit [Log INFO (''Email entered using selector: '' @ sel)]) (\<lambda>_. ret True))))"

definition tryNextButton :: "page \<Rightarrow> selector \<Rightarrow> event list \<times> bool" where
  "tryNextButton pg sel =
     swallow (bindB (await (Query sel) (pg sel)) (\<lambda>nextButton.
       case nextButton of
         None \<Rightarrow> ret False
       | Some el \<Rightarrow>
           bindB (settle (isVisible el)) (\<lambda>visible.
             if visible
             then bindB (await (Click sel) (click el)) (\<lambda>_.
                  bindB (emit [Log INFO ''Clicked next/continue button'', WaitForTimeout 2000])
                    (\<lambda>_. ret True))
             else ret False)))"

definition tryPasswordField :: "page \<Rightarrow> string \<Rightarrow> selector \<Rightarrow> event list \<times> bool" where
  "tryPasswordField pg password sel =
     swallow (bindB (await (Query sel) (pg sel)) (\<lambda>passwordField.
       case passwordField of
         None \<Rightarrow> ret False
       | Some el \<Rightarrow>
           bindB (settle (isVisible el)) (\<lambda>visible.
             if visible
             then bindB (await (Fill sel password) (fill el)) (\<lambda>_.
                  bindB (emit [Log INFO (''Password entered using selector: '' @ sel)])
                    (\<lambda>_. ret True))
             else ret False)))"

definition trySubmitButton :: "page \<Rightarrow> selector \<Rightarrow> event list \<times> bool" where
  "trySubmitButton pg sel =
     swallow (bindB (await (Query sel) (pg sel)) (\<lambda>submitButton.
       case submitButton of
         None \<Rightarrow> ret False
       | Some el \<Rightarrow>
           bindB (settle (isVisible el)) (\<lambda>visible.
             if visible
             then bindB (await (Click sel) (click el)) (\<lambda>_.
                  bindB (emit [Log INFO (''Login form submitted using selector: '' @ sel)])
                    (\<lambda>_. ret True))
             else ret False)))"

definition handlePasswordLogin :: "env \<Rightarrow> world \<Rightarrow> unit block" where
  "handlePasswordLogin e w =
     seqB
       [emit [Log INFO ''Filling in login credentials...''],
        await (WaitForSelector emailInputSelector) (waitForEmailInput w),
        (case forEachUntil (tryEmailField (loginPage w) (showStr (ZOHO_EMAIL e))) emailSelectors of
           (es, emailFilled) \<Rightarrow>
             bindB (emit es) (\<lambda>_.
               if \<not> emailFilled then throw (Error ''Could not find email input field'') else ret ())),
        (case forEachUntil (tryNextButton (loginPage w)) nextButtonSelectors of
           (es, clicked) \<Rightarrow> emit es),
        emit [Log INFO ''Filling in password...'', WaitForTimeout 1000],
        (case forEachUntil (tryPasswordField (loginPage w) (showStr (ZOHO_PASSWORD e))) passwordSelectors of
           (es, passwordFilled) \<Rightarrow>
             bindB (emit es) (\<lambda>_.
               if \<not> passwordFilled then throw (Error ''Could not find password input field'') else ret ())),
        emit [Log INFO ''Submitting login form...''],
        (case forEachUntil (trySubmitButton (loginPage w)) submitSelectors of
           (es, submitted) \<Rightarrow>
             bindB (emit es) (\<lambda>_.
               if \<not> submitted
               then seqB [await PressEnter (pressEnter w),
                          emit [Log INFO ''Submitted login form using Enter key'']]
               else ret ()))]"


subsection \<open>\<open>performZohoCheckin\<close>\<close>

definition useHeadless :: "env \<Rightarrow> bool" where
  "useHeadless e = (env_HEADLESS e = Some ''true'')"

text \<open>
  Steps 1 and 2: the two places where the function calls \<open>process.exit(1)\<close> before the
  browser exists. The result is the exit code, or \<open>None\<close> when the run goes on.
\<close>

definition validate :: "env \<Rightarrow> world \<Rightarrow> event list \<times> nat option" where
  "validate e w =
     (if \<not> truthy (ZOHO_EMAIL e)
      then ([Log ERROR ''Zoho email not configured. Please set ZOHO_EMAIL environment variable.''],
            Some 1)
      else if hasSavedState w
      then ([Log INFO ''Found saved authentication state. Attempting to reuse session...''], None)
      else if USE_GOOGLE_LOGIN e
      then ([Log INFO ''No saved authentication state found. Will run in headed mode for Google OAuth login.'',
             Log INFO ''Please complete the Google login in the browser window that opens.''], None)
      else if \<not> truthy (ZOHO_PASSWORD e)
      then ([Log ERROR ''No password provided and no saved state. Please set ZOHO_PASSWORD or USE_GOOGLE_LOGIN=true''],
            Some 1)
      else ([], None))"

text \<open>
  Step 3 up to the launch of the browser. The value returned says whether the variable
  \<open>browser\<close> is set afterwards: it is in the plain launch and stays \<open>null\<close> with a
  persistent context.
\<close>

definition launchStep :: "env \<Rightarrow> world \<Rightarrow> bool block" where
  "launchStep e w =
     bindB (emit
        [(if \<not> useHeadless e
          then Log INFO ''Running in headed mode - browser window will be visible''
          else Log INFO ''Running in headless mode - browser window will be hidden''),
         Log INFO (''Launching browser (headless: ''
                   @ (if useHeadless e then ''true'' else ''false'') @ '')...'')]) (\<lambda>_.
     if USE_PERSISTENT_CONTEXT e
     then bindB (seqB
            [(if \<not> userDataDirExists w
              then seqB [await (MkDir (USER_DATA_DIR e)) (mkdirSync w),
                         emit [Log INFO (''Created browser data directory: '' @ USER_DATA_DIR e)]]
              else ret ()),
             emit [Log INFO ''Using persistent browser context - your Google login will be remembered after first use''],
             await (LaunchPersistentContext (USER_DATA_DIR e) (useHeadless e)) (launch w)])
            (\<lambda>_. ret False)
     else bindB (await (LaunchBrowser (useHeadless e)) (launch w)) (\<lambda>_. ret True))"

text \<open>
  The rest of step 3 (the page is obtained and its init script added) and step 4 (the
  navigation to the login address).
\<close>

definition openPageStep :: "env \<Rightarrow> world \<Rightarrow> unit block" where
  "openPageStep e w =
     seqB
       [(if \<not> USE_PERSISTENT_CONTEXT e \<and> hasSavedState w
         then emit [Log INFO ''Loaded saved authentication state'']
         else ret ()),
        await NewPage (newPage w),
        emit [Log INFO (''Navigating to '' @ ZOHO_URL e @ ''...'')],
        await SetExtraHTTPHeaders (setExtraHTTPHeaders w),
        await (Goto (ZOHO_URL e)) (gotoLogin w)]"

text \<open>Step 5: the login state is read off the page address; the login runs if needed.\<close>

definition isLoginAddress :: "string \<Rightarrow> bool" where
  "isLoginAddress url = (includes_str url ''signin'' \<or> includes_str url ''login'')"

definition loginStep :: "env \<Rightarrow> world \<Rightarrow> unit block" where
  "loginStep e w =
     bindB (emit [Log INFO (''Current URL: '' @ landingUrl w)]) (\<lambda>_.
     if \<not> (\<not> includes_str (landingUrl w) ''signin'' \<and> \<not> includes_str (landingUrl w) ''login'')
     then seqB
       [(if USE_GOOGLE_LOGIN e
         then bindB (emit [Log INFO ''Attempting Google OAuth login...'']) (\<lambda>_. handleGoogleLogin e w)
         else bindB (emit [Log INFO ''Attempting password login...'']) (\<lambda>_. handlePasswordLogin e w)),
        emit [Log INFO ''Waiting for login to complete...'',
              WaitForTimeout 5000,
              Log INFO (''URL after login attempt: '' @ postLoginUrl w)],
        (if includes_str (postLoginUrl w) ''signin'' \<or> includes_str (postLoginUrl w) ''login''
         then seqB
           [emit [Log ERROR ''Still on login page. Login may have failed.''],
            await (Screenshot ''logs/login-failed.png'') (screenshot w ''logs/login-failed.png''),
            (if USE_GOOGLE_LOGIN e \<and> \<not> useHeadless e
             then emit [Log INFO ''Please complete the Google login manually in the browser window.'',
                        Log INFO ''Waiting 60 seconds for manual login...'',
                        WaitForTimeout 60000]
             else throw (Error ''Login failed or requires additional authentication''))]
         else ret ()),
        (if \<not> USE_PERSISTENT_CONTEXT e
         then (case await (SaveStorageState STORAGE_STATE_PATH) (storageState w) of
                 (es, Inr u) \<Rightarrow> (es @ [Log INFO ''Authentication state saved for future use''], Inr ())
               | (es, Inl err) \<Rightarrow>
                   (es @ [Log ERROR (''Warning: Could not save authentication state: '' @ message err)],
                    Inr ()))
         else emit [Log INFO ''Using persistent context - session (including Google login) will be automatically saved''])]
     else emit [Log INFO ''Already logged in using saved session''])"

text \<open>Step 6: the navigation to the action screen, unless the page is already there.\<close>

definition checkinUrl :: "env \<Rightarrow> string" where
  "checkinUrl e = orElse (env_ZOHO_CHECKIN_URL e)
     ''https://people.zoho.com/iscalesolutions/zp#home/myspace/overview-actionlist''"

definition navigateStep :: "env \<Rightarrow> world \<Rightarrow> unit block" where
  "navigateStep e w =
     (if \<not> includes_str (urlBeforeAction w) ''people.zoho.com''
         \<or> \<not> includes_str (urlBeforeAction w) ''myspace''
      then seqB
        [emit [Log INFO (''Navigating to check-in/check-out page: '' @ checkinUrl e)],
         await (Goto (checkinUrl e)) (gotoCheckin w),
         emit [WaitForTimeout 2000]]
      else emit [Log INFO ''Already on check-in/check-out page''])"

text \<open>Step 7: the action selectors, the classification of the button, and the loop.\<close>

definition defaultActionSelectors :: "selector list" where
  \<open>defaultActionSelectors =
     [''#ZPAtt_check_in_out'',
      ''button#ZPAtt_check_in_out'',
      ''button[aria-label*="Check"]'',
      ''button:has-text("Check-in")'',
      ''button:has-text("Check-out")'',
      ''button:has-text("Check In")'',
      ''[onclick*="TAMSUtil.Attendance.punch"]'']\<close>

definition actionSelectors :: "env \<Rightarrow> selector list" where
  "actionSelectors e =
     (if truthy (env_CHECKIN_SELECTORS e)
      then splitTrimmed (showStr (env_CHECKIN_SELECTORS e))
      else defaultActionSelectors)"

text \<open>
  The \<open>if / else if / else\<close> that sets \<open>actionType\<close> from \<open>buttonText\<close> and
  \<open>ariaLabel\<close>. Both may be \<open>null\<close>; \<open>.toLowerCase()\<close> on \<open>null\<close> throws, and
  \<open>||\<close> evaluates its right operand only when the left one is false.
\<close>

definition nullDeref :: error where
  "nullDeref = TypeError ''Cannot read properties of null''"

definition actionTypeOf :: "string option \<Rightarrow> string option \<Rightarrow> error + string" where
  "actionTypeOf buttonText ariaLabel =
     (case buttonText of
        None \<Rightarrow> Inl nullDeref
      | Some bt \<Rightarrow>
          if includes_str (toLowerCase bt) ''check-in'' then Inr ''check-in''
          else (case ariaLabel of
                  None \<Rightarrow> Inl nullDeref
                | Some al \<Rightarrow>
                    if includes_str (toLowerCase al) ''check-in'' then Inr ''check-in''
                    else if includes_str (toLowerCase bt) ''check-out''
                            \<or> includes_str (toLowerCase al) ''check-out''
                    then Inr ''check-out''
                    else Inr (if includes_str (toLowerCase bt) ''out''
                              then ''check-out'' else ''check-in'')))"

text \<open>
  One iteration of the action loop, in two parts: up to the assignment of
  \<open>actionType\<close>, and from there to the \<open>break\<close>. An exception in the first part
  leaves \<open>actionType\<close> as it was; one in the second leaves the new value. The result is
  \<open>(actionPerformed, actionType)\<close> after the iteration.
\<close>

definition findActionButton :: "page \<Rightarrow> selector \<Rightarrow> (element \<times> string option \<times> string option \<times> string) option block" where
  "findActionButton pg sel =
     bindB (emit [WaitForSelector sel]) (\<lambda>_.
     bindB (await (Query sel) (pg sel)) (\<lambda>actionButton.
       case actionButton of
         None \<Rightarrow> ret None
       | Some el \<Rightarrow>
           if orCatch (isVisible el) False
           then (let buttonText = orCatch (textContent el) (Some []);
                     ariaLabel = orCatch (ariaLabelAttribute el) (Some [])
                 in case actionTypeOf buttonText ariaLabel of
                      Inl err \<Rightarrow> throw err
                    | Inr actionType \<Rightarrow> ret (Some (el, buttonText, ariaLabel, actionType)))
           else ret None))"

definition pressActionButton :: "selector \<Rightarrow> element \<Rightarrow> string option \<Rightarrow> string option \<Rightarrow> string \<Rightarrow> unit block" where
  \<open>pressActionButton sel el buttonText ariaLabel actionType =
     seqB
       [emit [Log INFO (''Found '' @ actionType @ '' button. Button text: "'' @ showStr buttonText
                        @ ''", Aria-label: "'' @ showStr ariaLabel @ ''"'')],
        await (ScrollIntoView sel) (scrollIntoViewIfNeeded el),
        emit [WaitForTimeout 500],
        await (Click sel) (click el),
        emit [Log INFO (actionType @ '' performed using selector: '' @ sel),
              WaitForTimeout 3000,
              WaitForTimeout 2000,
              Log INFO (''Button text after action: "''
                        @ showStr (orCatch (textContentAfterClick el) (Some [])) @ ''"'')]]\<close>

definition tryActionSelector :: "page \<Rightarrow> string \<Rightarrow> selector \<Rightarrow> event list \<times> bool \<times> string" where
  "tryActionSelector pg actionType sel =
     (case findActionButton pg sel of
        (es, Inl err) \<Rightarrow>
          (es @ [Log INFO (''Error trying selector '' @ sel @ '': '' @ message err)], False, actionType)
      | (es, Inr None) \<Rightarrow> (es, False, actionType)
      | (es, Inr (Some (el, buttonText, ariaLabel, actionType'))) \<Rightarrow>
          (case pressActionButton sel el buttonText ariaLabel actionType' of
             (es', Inl err) \<Rightarrow>
               (es @ es' @ [Log INFO (''Error trying selector '' @ sel @ '': '' @ message err)],
                False, actionType')
           | (es', Inr u) \<Rightarrow> (es @ es', True, actionType')))"

fun actionLoop :: "page \<Rightarrow> string \<Rightarrow> selector list \<Rightarrow> event list \<times> bool \<times> string" where
  "actionLoop pg actionType [] = ([], False, actionType)"
| "actionLoop pg actionType (sel # rest) =
     (case tryActionSelector pg actionType sel of
        (es, True, actionType') \<Rightarrow> (es, True, actionType')
      | (es, False, actionType') \<Rightarrow>
          (case actionLoop pg actionType' rest of (es', r) \<Rightarrow> (es @ es', r)))"

text \<open>Steps 7 and 8: the loop, the report of its result, and the final screenshot.\<close>

definition finalScreenshot :: "world \<Rightarrow> string" where
  "finalScreenshot w = ''logs/zoho-checkin-'' @ isoTimestamp w @ ''.png''"

definition actionStep :: "env \<Rightarrow> world \<Rightarrow> unit block" where
  "actionStep e w =
     bindB (emit
        [Log INFO ''Looking for check-in/check-out button...'',
         (if truthy (env_CHECKIN_SELECTORS e)
          then Log INFO (''Using custom selectors: '' @ join '', '' (actionSelectors e))
          else Log INFO ''Using default check-in/check-out selectors'')]) (\<lambda>_.
     case actionLoop (actionPage w) ''unknown'' (actionSelectors e) of
       (es, actionPerformed, actionType) \<Rightarrow>
         seqB
           [emit es,
            (if \<not> actionPerformed
             then seqB
               [emit [Log ERROR ''Could not find check-in/check-out button. Taking screenshot for debugging...''],
                await (Screenshot ''logs/checkin-not-found.png'') (screenshot w ''logs/checkin-not-found.png''),
                emit [Log INFO ''Screenshot saved to logs/checkin-not-found.png'']]
             else emit [Log INFO (actionType @ '' action completed successfully!'')]),
            await (Screenshot (finalScreenshot w)) (screenshot w (finalScreenshot w)),
            emit [Log INFO (''Screenshot saved to '' @ finalScreenshot w),
                  Log INFO ''Zoho check-in automation completed successfully'']])"

text \<open>
  The \<open>catch\<close> block (it ends in \<open>process.exit(1)\<close>) and the \<open>finally\<close> block. In
  \<open>finally\<close> the name \<open>persistentContext\<close> is the function-level variable, which the
  declaration of the same name inside \<open>try\<close> shadows and which therefore is still
  \<open>null\<close>: only a plain browser is closed. The stack trace line carries the message;
  the frames are left out.
\<close>

definition catchBlock :: "bool \<Rightarrow> world \<Rightarrow> error \<Rightarrow> event list" where
  "catchBlock browser w err =
     [Log ERROR (''Error during automation: '' @ message err),
      Log ERROR (''Stack trace: '' @ message err)]
     @ (if browser
        then (case bindB (await BrowserPages (browserPages w)) (\<lambda>n.
                     if n > 0
                     then seqB
                       [await (Screenshot (''logs/error-'' @ isoTimestamp w @ ''.png''))
                              (screenshot w (''logs/error-'' @ isoTimestamp w @ ''.png'')),
                        emit [Log INFO (''Error screenshot saved to logs/error-''
                                        @ isoTimestamp w @ ''.png'')]]
                     else ret ()) of
                (es, Inr u) \<Rightarrow> es
              | (es, Inl screenshotError) \<Rightarrow>
                  es @ [Log ERROR (''Could not take error screenshot: '' @ message screenshotError)])
        else [])"

definition finallyBlock :: "bool \<Rightarrow> world \<Rightarrow> unit block" where
  "finallyBlock browser w =
     (if browser
      then seqB [await CloseBrowser (closeBrowser w), emit [Log INFO ''Browser closed'']]
      else ret ())"

text \<open>
  The whole function: how the promise it returns settles, or the code with which it
  exits the process. \<open>untilAction\<close> is the part of the \<open>try\<close> block between the launch
  and step 7.
\<close>

datatype completion = Fulfilled | Failed error | ProcessExit nat

definition untilAction :: "env \<Rightarrow> world \<Rightarrow> unit block" where
  "untilAction e w = seqB [openPageStep e w, loginStep e w, navigateStep e w]"

definition performZohoCheckin :: "env \<Rightarrow> world \<Rightarrow> event list \<times> completion" where
  "performZohoCheckin e w =
     (case validate e w of
        (es0, Some code) \<Rightarrow> (es0, ProcessExit code)
      | (es0, None) \<Rightarrow>
          (case launchStep e w of
             (es1, Inl err) \<Rightarrow> (es0 @ es1 @ catchBlock False w err, ProcessExit 1)
           | (es1, Inr browser) \<Rightarrow>
               (case bindB (untilAction e w) (\<lambda>_. actionStep e w) of
                  (es2, Inl err) \<Rightarrow> (es0 @ es1 @ es2 @ catchBlock browser w err, ProcessExit 1)
                | (es2, Inr u) \<Rightarrow>
                    (case finallyBlock browser w of
                       (es3, Inl err) \<Rightarrow> (es0 @ es1 @ es2 @ es3, Failed err)
                     | (es3, Inr u') \<Rightarrow> (es0 @ es1 @ es2 @ es3, Fulfilled)))))"

text \<open>
  The script run as the main module: the trace and the exit code of the process.
\<close>

definition main :: "env \<Rightarrow> world \<Rightarrow> event list \<times> nat" where
  "main e w =
     (case performZohoCheckin e w of
        (es, Fulfilled) \<Rightarrow> (es @ [Log INFO ''Script execution completed''], 0)
      | (es, Failed err) \<Rightarrow> (es @ [Log ERROR (''Fatal error: '' @ message err)], 1)
      | (es, ProcessExit code) \<Rightarrow> (es, code))"


section \<open>Vocabulary of the statements\<close>

text \<open>
  A callback run fires a target exactly when the clock read that decides it matches the
  schedule and the marker does not hold that read's date; \<open>midnight\<close> is the condition
  of the daily reset.
\<close>

definition fires :: "target \<Rightarrow> reads \<Rightarrow> monitor \<Rightarrow> bool" where
  "fires t r m = (matches t (readFor t r) \<and> marker t m \<noteq> Some (toDateString (readFor t r)))"

definition midnight :: "date \<Rightarrow> bool" where
  "midnight n = (getHours n = 0 \<and> getMinutes n = 0)"

text \<open>
  A selector yields a visible match on a page when \<open>page.$\<close> returns an element and
  its \<open>isVisible()\<close> answers true. An event is a log line or a call to the engine.
\<close>

definition visibleMatch :: "page \<Rightarrow> selector \<Rightarrow> bool" where
  "visibleMatch pg sel =
     (case pg sel of
        Resolved (Some el) \<Rightarrow> isVisible el = Resolved True
      | _ \<Rightarrow> False)"

fun isLog :: "event \<Rightarrow> bool" where
  "isLog (Log l m) = True"
| "isLog ev = False"

text \<open>
  What step 7 and step 8 leave in the trace when no button was pressed, and the log line
  that names the selector list in use.
\<close>

definition notFoundReport :: "world \<Rightarrow> event list" where
  "notFoundReport w =
     [Log ERROR ''Could not find check-in/check-out button. Taking screenshot for debugging...'',
      Screenshot ''logs/checkin-not-found.png'',
      Log INFO ''Screenshot saved to logs/checkin-not-found.png'',
      Screenshot (finalScreenshot w),
      Log INFO (''Screenshot saved to '' @ finalScreenshot w),
      Log INFO ''Zoho check-in automation completed successfully'']"

definition selectorsLog :: "env \<Rightarrow> event" where
  "selectorsLog e =
     (if truthy (env_CHECKIN_SELECTORS e)
      then Log INFO (''Using custom selectors: '' @ join '', '' (actionSelectors e))
      else Log INFO ''Using default check-in/check-out selectors'')"

text \<open>
  Substring match without regard to case, stated without reference to the program's
  own search function.
\<close>

definition containsIgnoringCase :: "string \<Rightarrow> string \<Rightarrow> bool" where
  "containsIgnoringCase s sub = (\<exists>p q. toLowerCase s = p @ sub @ q)"

text \<open>
  The classification of the action as the specification words it: a substring match on
  \<open>in\<close> and \<open>out\<close> in the control's text or its accessible label, check-in when the
  two do not single out check-out.
\<close>

definition specActionType :: "string \<Rightarrow> string \<Rightarrow> string" where
  "specActionType text label =
     (let hasIn = (includes_str (toLowerCase text) ''in'' \<or> includes_str (toLowerCase label) ''in'');
          hasOut = (includes_str (toLowerCase text) ''out'' \<or> includes_str (toLowerCase label) ''out'')
      in if hasOut \<and> \<not> hasIn then ''check-out'' else ''check-in'')"

section \<open>Concrete scenarios\<close>

text \<open>
  Inputs on which the statements below are exercised: a configuration that sets only
  the account (so that the Google login is selected), a world in which every engine
  call succeeds and no selector finds an element, and variations of both.
\<close>

definition onlyEmail :: env where
  "onlyEmail =
     \<lparr>env_ZOHO_EMAIL = Some ''user@example.com'', env_ZOHO_PASSWORD = None, env_ZOHO_URL = None,
      env_USE_GOOGLE_LOGIN = None, env_USER_DATA_DIR = None, env_USE_PERSISTENT_CONTEXT = None,
      env_HEADLESS = None, env_HEADED = None, env_ZOHO_CHECKIN_URL = None,
      env_CHECKIN_SELECTORS = None, env_GOOGLE_LOGIN_SELECTORS = None\<rparr>"

definition plainBrowser :: env where
  "plainBrowser = onlyEmail\<lparr>env_USE_PERSISTENT_CONTEXT := Some ''false''\<rparr>"

definition emptyPage :: page where
  "emptyPage sel = Resolved None"

definition loginAddress :: string where
  "loginAddress = ''https://accounts.zoho.com/signin?servicename=zohopeople''"

definition homeAddress :: string where
  "homeAddress = ''https://people.zoho.com/iscalesolutions/zp#home/myspace/overview-actionlist''"

definition loggedOut :: world where
  "loggedOut =
     \<lparr>hasSavedState = False, userDataDirExists = True, mkdirSync = Resolved (),
      launch = Resolved (), newPage = Resolved (), setExtraHTTPHeaders = Resolved (),
      gotoLogin = Resolved (), landingUrl = loginAddress, loginPage = emptyPage,
      waitForEmailInput = Resolved (), pressEnter = Resolved (), postLoginUrl = loginAddress,
      storageState = Resolved (), urlBeforeAction = loginAddress, gotoCheckin = Resolved (),
      actionPage = emptyPage, screenshot = (\<lambda>path. Resolved ()),
      isoTimestamp = ''2026-11-03T06-00-00-000Z'',
      browserPages = Rejected ''browser.pages is not a function'', closeBrowser = Resolved ()\<rparr>"

definition loggedIn :: world where
  "loggedIn = loggedOut\<lparr>landingUrl := homeAddress, postLoginUrl := homeAddress,
                          urlBeforeAction := homeAddress\<rparr>"

text \<open>
  A visible button that reads \<open>Check-out\<close> and has no \<open>aria-label\<close> attribute
  (\<open>getAttribute\<close> returns \<open>null\<close>); every call on it succeeds.
\<close>

definition checkoutButton :: element where
  "checkoutButton =
     \<lparr>isVisible = Resolved True, textContent = Resolved (Some ''Check-out''),
      ariaLabelAttribute = Resolved None, scrollIntoViewIfNeeded = Resolved (),
      click = Resolved (), fill = Resolved (), textContentAfterClick = Resolved (Some ''Check-in'')\<rparr>"

text \<open>
  A second visible button, with a label, that opens the attendance history. On the
  attendance page the first two default selectors find the check-out button and the
  third finds the history button.
\<close>

definition historyButton :: element where
  "historyButton =
     checkoutButton\<lparr>textContent := Resolved (Some ''Check history''),
                    ariaLabelAttribute := Resolved (Some ''Check history''),
                    textContentAfterClick := Resolved (Some ''Check history'')\<rparr>"

definition attendancePage :: page where
  \<open>attendancePage sel =
     (if sel = ''#ZPAtt_check_in_out'' \<or> sel = ''button#ZPAtt_check_in_out''
      then Resolved (Some checkoutButton)
      else if sel = ''button[aria-label*="Check"]'' then Resolved (Some historyButton)
      else Resolved None)\<close>

text \<open>
  A login page with two email inputs: the first answers \<open>isVisible()\<close> with false,
  the second with true.
\<close>

definition hiddenInput :: element where
  "hiddenInput =
     \<lparr>isVisible = Resolved False, textContent = Resolved (Some []),
      ariaLabelAttribute = Resolved None, scrollIntoViewIfNeeded = Resolved (),
      click = Resolved (), fill = Resolved (), textContentAfterClick = Resolved (Some [])\<rparr>"

definition visibleInput :: element where
  "visibleInput = hiddenInput\<lparr>isVisible := Resolved True\<rparr>"

definition signinPage :: page where
  \<open>signinPage sel =
     (if sel = ''input[type="email"]'' then Resolved (Some hiddenInput)
      else if sel = ''input[name="login_id"]'' then Resolved (Some visibleInput)
      else Resolved None)\<close>


subsection \<open>Scenarios for the scheduler\<close>

definition mondaySix :: date where
  "mondaySix = \<lparr>getDay = 1, getHours = 6, getMinutes = 0, toDateString = ''Mon Nov 02 2026''\<rparr>"

definition tuesdayMidnight :: date where
  "tuesdayMidnight = \<lparr>getDay = 2, getHours = 0, getMinutes = 0, toDateString = ''Tue Nov 03 2026''\<rparr>"

definition tuesdaySix :: date where
  "tuesdaySix = \<lparr>getDay = 2, getHours = 6, getMinutes = 0, toDateString = ''Tue Nov 03 2026''\<rparr>"

definition at :: "date \<Rightarrow> input" where
  "at n = Tick (n, n, n)"

definition idle :: monitor where
  "idle = \<lparr>lastCheckinDate = None, lastCheckoutDate = None\<rparr>"

definition ranMonday :: monitor where
  "ranMonday = \<lparr>lastCheckinDate = Some ''Mon Nov 02 2026'', lastCheckoutDate = None\<rparr>"

definition afterFailure :: "input list" where
  "afterFailure =
     [ChildError ''spawn node ENOENT'', ChildExit (Some 1), at mondaySix, ChildExit None]"

section \<open>Properties of the string functions\<close>

text \<open>
  The search function finds exactly the substrings; splitting at a separator yields
  separator-free pieces that join back to the input.
\<close>

lemma startsWith_iff: "startsWith s sub = (\<exists>q. s = sub @ q)"
  by (induction s sub rule: startsWith.induct) auto

lemma includes_str_iff: "includes_str s sub = (\<exists>p q. s = p @ sub @ q)"
proof (induction s)
  case Nil
  then show ?case by auto
next
  case (Cons x xs)
  have "(\<exists>p q. x # xs = p @ sub @ q) = ((\<exists>q. x # xs = sub @ q) \<or> (\<exists>p q. xs = p @ sub @ q))"
  proof
    assume "\<exists>p q. x # xs = p @ sub @ q"
    then obtain p q where pq: "x # xs = p @ sub @ q" by blast
    show "(\<exists>q. x # xs = sub @ q) \<or> (\<exists>p q. xs = p @ sub @ q)"
    proof (cases p)
      case Nil
      with pq show ?thesis by auto
    next
      case (Cons y ys)
      with pq have "xs = ys @ sub @ q" by simp
      then show ?thesis by blast
    qed
  next
    assume "(\<exists>q. x # xs = sub @ q) \<or> (\<exists>p q. xs = p @ sub @ q)"
    then show "\<exists>p q. x # xs = p @ sub @ q"
    proof
      assume "\<exists>q. x # xs = sub @ q"
      then obtain q where "x # xs = [] @ sub @ q" by auto
      then show ?thesis by blast
    next
      assume "\<exists>p q. xs = p @ sub @ q"
      then obtain p q where "x # xs = (x # p) @ sub @ q" by auto
      then show ?thesis by blast
    qed
  qed
  then show ?case using Cons.IH by (simp add: startsWith_iff del: startsWith.simps)
qed

lemma containsIgnoringCase_includes:
  "containsIgnoringCase s sub = includes_str (toLowerCase s) sub"
  by (simp only: containsIgnoringCase_def includes_str_iff)

lemma split_not_Nil: "split sep s \<noteq> []"
  by (induction s) (auto split: list.splits)

lemma join_split: "join [sep] (split sep s) = s"
proof (induction s)
  case Nil
  then show ?case by simp
next
  case (Cons x xs)
  obtain p ps where ps: "split sep xs = p # ps"
    using split_not_Nil [of sep xs] by (cases "split sep xs") auto
  show ?case
  proof (cases "x = sep")
    case True
    with Cons ps show ?thesis by simp
  next
    case False
    with Cons ps show ?thesis by (cases ps) auto
  qed
qed

lemma split_pieces: "p \<in> set (split sep s) \<Longrightarrow> sep \<notin> set p"
  by (induction s arbitrary: p) (auto split: if_splits list.splits)

lemma trim_Nil: "trim [] = []"
  by (simp add: trim_def)

section \<open>Properties of the scheduler\<close>

lemma run_Exited: "run ins (Exited n) = ([], Exited n)"
  by (induction ins) auto

lemma run_Cons_fst: "fst (run (i # ins) p) = fst (step i p) @ fst (run ins (snd (step i p)))"
  by (simp split: prod.splits)

lemma run_Cons_snd: "snd (run (i # ins) p) = snd (run ins (snd (step i p)))"
  by (simp split: prod.splits)

lemma step_Tick:
  "fst (step (Tick r) (Running m)) = fst (tick r m)"
  "snd (step (Tick r) (Running m)) = Running (snd (tick r m))"
  by (simp_all split: prod.splits)

lemma spawns_append: "spawns t (xs @ ys) = spawns t xs + spawns t ys"
  by (simp add: spawns_def)

lemma spawns_Nil: "spawns t [] = 0"
  by (simp add: spawns_def)

lemma run_child:
  "spawns t (fst (run (ChildError msg # ins) (Running m))) = spawns t (fst (run ins (Running m)))"
  "spawns t (fst (run (ChildExit c # ins) (Running m))) = spawns t (fst (run ins (Running m)))"
  by (simp_all add: run_Cons_fst spawns_def del: run.simps)

lemma tick_spawns: "spawns t (fst (tick r m)) = (if fires t r m then 1 else 0)"
  by (cases t; cases r)
     (auto simp add: tick_def spawns_def runCheckinScript_def fires_def matches_def
        shouldRunCheckin_def shouldRunCheckout_def split: prod.splits)

lemma tick_marker:
  "marker t (snd (tick r m)) =
     (if midnight (fst r) then None
      else if fires t r m then Some (toDateString (readFor t r)) else marker t m)"
  by (cases t; cases r)
     (auto simp add: tick_def fires_def matches_def midnight_def
        shouldRunCheckin_def shouldRunCheckout_def split: prod.splits)

lemma midnight_minuteOfDay: "midnight n = (minuteOfDay n = 0)"
  by (auto simp add: midnight_def minuteOfDay_def)

lemma matches_minuteOfDay: "matches t n \<Longrightarrow> 360 \<le> minuteOfDay n"
  by (cases t) (auto simp add: matches_def minuteOfDay_def CHECKIN_TIME_def CHECKOUT_TIME_def)

lemma readFor_in_readsOf: "readFor t r \<in> set (readsOf (Tick r))"
  by (cases t; cases r) auto

lemma fst_in_readsOf: "fst r \<in> set (readsOf (Tick r))"
  by (cases r) auto

text \<open>
  While the marker holds today's date and no callback starts at 00:00, the target
  stays silent.
\<close>

lemma no_refire:
  "list_all (\<lambda>n. toDateString n = d \<and> 0 < minuteOfDay n) (concat (map readsOf ins)) \<Longrightarrow>
   marker t m = Some d \<Longrightarrow> spawns t (fst (run ins (Running m))) = 0"
proof (induction ins arbitrary: m)
  case Nil
  then show ?case by (simp add: spawns_Nil)
next
  case (Cons i ins)
  have rest: "list_all (\<lambda>n. toDateString n = d \<and> 0 < minuteOfDay n) (concat (map readsOf ins))"
    using Cons.prems(1) by simp
  show ?case
  proof (cases i)
    case (Tick r)
    have here: "\<forall>n \<in> set (readsOf (Tick r)). toDateString n = d \<and> 0 < minuteOfDay n"
      using Cons.prems(1) Tick by (simp add: list_all_iff)
    have nofire: "\<not> fires t r m"
      using here readFor_in_readsOf [of t r] Cons.prems(2) by (auto simp add: fires_def)
    have "\<not> midnight (fst r)"
      using here fst_in_readsOf [of r] by (auto simp add: midnight_minuteOfDay)
    then have keep: "marker t (snd (tick r m)) = Some d"
      using nofire Cons.prems(2) by (simp add: tick_marker)
    have "spawns t (fst (tick r m)) = 0"
      using nofire by (simp add: tick_spawns)
    moreover have "spawns t (fst (run ins (Running (snd (tick r m))))) = 0"
      using Cons.IH [OF rest keep] .
    ultimately show ?thesis
      using Tick by (simp only: run_Cons_fst step_Tick spawns_append)
  next
    case (ChildError msg)
    then show ?thesis
      using Cons.IH [OF rest Cons.prems(2)] by (simp only: run_child)
  next
    case (ChildExit c)
    then show ?thesis
      using Cons.IH [OF rest Cons.prems(2)] by (simp only: run_child)
  next
    case Signal
    then show ?thesis
      by (simp add: run_Exited spawns_def)
  qed
qed

lemma withinDay_tail: "withinDay d (i # ins) \<Longrightarrow> withinDay d ins"
  by (auto simp add: withinDay_def sorted_append)

lemma withinDay_after_fire:
  assumes w: "withinDay d (Tick r # ins)" and f: "fires t r m"
  shows "list_all (\<lambda>n. toDateString n = d \<and> 0 < minuteOfDay n) (concat (map readsOf ins))"
    and "\<not> midnight (fst r)" and "toDateString (readFor t r) = d"
proof -
  obtain now nowIn nowOut where r: "r = (now, nowIn, nowOut)" by (cases r) auto
  have m: "360 \<le> minuteOfDay (readFor t r)"
    using f matches_minuteOfDay [of t "readFor t r"] by (simp add: fires_def)
  have le: "minuteOfDay (readFor t r) \<le> minuteOfDay nowOut"
    using w r by (cases t) (auto simp add: withinDay_def)
  have later: "\<forall>n \<in> set (concat (map readsOf ins)). minuteOfDay nowOut \<le> minuteOfDay n"
    using w r by (auto simp add: withinDay_def sorted_append)
  have day: "\<forall>n \<in> set (concat (map readsOf ins)). toDateString n = d"
    using w by (auto simp add: withinDay_def list_all_iff)
  show "list_all (\<lambda>n. toDateString n = d \<and> 0 < minuteOfDay n) (concat (map readsOf ins))"
    unfolding list_all_iff using m le later day by fastforce
  have "minuteOfDay nowOut \<le> minuteOfDay now + 1"
    using w r by (simp add: withinDay_def)
  then show "\<not> midnight (fst r)"
    using m le r by (simp add: midnight_minuteOfDay)
  show "toDateString (readFor t r) = d"
    using w readFor_in_readsOf [of t r] by (auto simp add: withinDay_def list_all_iff)
qed

lemma at_most_once: "withinDay d ins \<Longrightarrow> spawns t (fst (run ins p)) \<le> 1"
proof (induction ins arbitrary: p)
  case Nil
  then show ?case by (simp add: spawns_Nil)
next
  case (Cons i ins)
  note IH = Cons.IH [OF withinDay_tail [OF Cons.prems]]
  show ?case
  proof (cases p)
    case (Exited n)
    then show ?thesis by (simp add: run_Exited spawns_Nil)
  next
    case (Running m)
    show ?thesis
    proof (cases i)
      case (Tick r)
      show ?thesis
      proof (cases "fires t r m")
        case True
        note facts = withinDay_after_fire [OF Cons.prems [unfolded Tick] True]
        have "marker t (snd (tick r m)) = Some d"
          using facts(2,3) True by (simp add: tick_marker)
        then have "spawns t (fst (run ins (Running (snd (tick r m))))) = 0"
          using no_refire [OF facts(1)] by simp
        then show ?thesis
          using Tick Running True by (simp only: run_Cons_fst step_Tick spawns_append tick_spawns) simp
      next
        case False
        then show ?thesis
          using Tick Running IH [of "Running (snd (tick r m))"]
          by (simp only: run_Cons_fst step_Tick spawns_append tick_spawns) simp
      qed
    next
      case (ChildError msg)
      then show ?thesis
        using Running IH [of p] by (simp only: run_child)
    next
      case (ChildExit c)
      then show ?thesis
        using Running IH [of p] by (simp only: run_child)
    next
      case Signal
      then show ?thesis
        using Running by (simp add: run_Exited spawns_def)
    qed
  qed
qed

lemmas scheduler_defs = tick_def shouldRunCheckin_def shouldRunCheckout_def WEEKDAYS_def
  CHECKIN_TIME_def CHECKOUT_TIME_def runCheckinScript_def spawns_def withinDay_def
  minuteOfDay_def matches_def at_def idle_def ranMonday_def mondaySix_def tuesdaySix_def
  tuesdayMidnight_def

text \<open>
  Claim C2. Within one local calendar day a target spawns the flow at most once: for
  every sequence of inputs of the monitor (timer callbacks, with child events and
  signals between them) whose clock reads all show the date \<open>d\<close>, follow each other in
  time, and lie at most a minute apart within one callback, and for every state the
  monitor starts from, the trace holds at most one spawn for check-in and at most one
  for check-out.
\<close>

theorem fires_at_most_once_per_day:
  assumes "withinDay d ins"
  shows "spawns t (fst (run ins (Running m))) \<le> 1"
  using assms by (rule at_most_once)

text \<open>
  Two callbacks that both read 06:00 on the same Monday: the hypothesis holds, and the
  one spawn allowed does happen.
\<close>

theorem fires_at_most_once_per_day_witness:
  "withinDay ''Mon Nov 02 2026'' [at mondaySix, at mondaySix]
   \<and> spawns CheckIn (fst (run [at mondaySix, at mondaySix] (Running idle))) \<le> 1
   \<and> spawns CheckIn (fst (run [at mondaySix, at mondaySix] (Running idle))) = 1
   \<and> spawns CheckOut (fst (run [at mondaySix, at mondaySix] (Running idle))) = 0"
proof -
  have w: "withinDay ''Mon Nov 02 2026'' [at mondaySix, at mondaySix]"
    by (simp add: scheduler_defs)
  have one: "spawns CheckIn (fst (run [at mondaySix, at mondaySix] (Running idle))) = 1"
    by (simp add: scheduler_defs)
  have none: "spawns CheckOut (fst (run [at mondaySix, at mondaySix] (Running idle))) = 0"
    by (simp add: scheduler_defs)
  show ?thesis
    using w one none fires_at_most_once_per_day [OF w, of CheckIn idle] by simp
qed

lemma run_keeps_marker_off:
  "list_all (\<lambda>n. \<not> (toDateString n = d1 \<and> matches t n)) (concat (map readsOf ins)) \<Longrightarrow>
   Signal \<notin> set ins \<Longrightarrow> marker t m \<noteq> Some d1 \<Longrightarrow>
   \<exists>m'. snd (run ins (Running m)) = Running m' \<and> marker t m' \<noteq> Some d1"
proof (induction ins arbitrary: m)
  case Nil
  then show ?case by simp
next
  case (Cons i ins)
  have rest: "list_all (\<lambda>n. \<not> (toDateString n = d1 \<and> matches t n)) (concat (map readsOf ins))"
    "Signal \<notin> set ins"
    using Cons.prems by simp_all
  show ?case
  proof (cases i)
    case (Tick r)
    have "\<not> (toDateString (readFor t r) = d1 \<and> matches t (readFor t r))"
      using Cons.prems(1) Tick readFor_in_readsOf [of t r] by (simp add: list_all_iff)
    then have "marker t (snd (tick r m)) \<noteq> Some d1"
      using Cons.prems(3) by (auto simp add: tick_marker fires_def)
    from Cons.IH [OF rest this] show ?thesis
      using Tick by (simp only: run_Cons_snd step_Tick)
  next
    case (ChildError msg)
    with Cons.IH [OF rest Cons.prems(3)] show ?thesis by (simp add: run_Cons_snd del: run.simps)
  next
    case (ChildExit c)
    with Cons.IH [OF rest Cons.prems(3)] show ?thesis by (simp add: run_Cons_snd del: run.simps)
  next
    case Signal
    with Cons.prems(2) show ?thesis by simp
  qed
qed

text \<open>
  Claim C3. A target whose last-run marker was set on a previous calendar day fires
  again on a later day: let the marker of target \<open>t\<close> hold a date \<open>d0\<close>, let the
  monitor then take any inputs that do not stop it and among whose clock reads none
  both shows the later date \<open>d1\<close> and matches the schedule of \<open>t\<close> (the callbacks of
  the days between, the midnight reset, the child events), and let a callback follow
  whose deciding clock read shows \<open>d1\<close> and matches the schedule (weekday, hour,
  minute). Then that callback spawns the flow for \<open>t\<close>, once.
\<close>

theorem fires_again_on_later_day:
  assumes "marker t m = Some d0" and "d0 \<noteq> d1"
    and "list_all (\<lambda>n. \<not> (toDateString n = d1 \<and> matches t n)) (concat (map readsOf ins))"
    and "Signal \<notin> set ins"
    and "matches t (readFor t r)" and "toDateString (readFor t r) = d1"
  shows "spawns t (fst (step (Tick r) (snd (run ins (Running m))))) = 1"
proof -
  have "marker t m \<noteq> Some d1" using assms(1,2) by simp
  from run_keeps_marker_off [OF assms(3,4) this]
  obtain m' where m': "snd (run ins (Running m)) = Running m'" "marker t m' \<noteq> Some d1"
    by blast
  have "fires t r m'" using assms(5,6) m'(2) by (simp add: fires_def)
  then show ?thesis using m'(1) by (simp add: step_Tick tick_spawns del: step.simps)
qed

text \<open>
  The marker was set on Monday; a child exit and the callback at 00:00 on Tuesday
  follow; the callback at 06:00 on Tuesday spawns the check-in.
\<close>

theorem fires_again_on_later_day_witness:
  "marker CheckIn ranMonday = Some ''Mon Nov 02 2026''
   \<and> ''Mon Nov 02 2026'' \<noteq> ''Tue Nov 03 2026''
   \<and> list_all (\<lambda>n. \<not> (toDateString n = ''Tue Nov 03 2026'' \<and> matches CheckIn n))
        (concat (map readsOf [ChildExit (Some 1), at tuesdayMidnight]))
   \<and> Signal \<notin> set [ChildExit (Some 1), at tuesdayMidnight]
   \<and> matches CheckIn (readFor CheckIn (tuesdaySix, tuesdaySix, tuesdaySix))
   \<and> toDateString (readFor CheckIn (tuesdaySix, tuesdaySix, tuesdaySix)) = ''Tue Nov 03 2026''
   \<and> spawns CheckIn (fst (step (Tick (tuesdaySix, tuesdaySix, tuesdaySix))
        (snd (run [ChildExit (Some 1), at tuesdayMidnight] (Running ranMonday))))) = 1"
proof -
  have a: "marker CheckIn ranMonday = Some ''Mon Nov 02 2026''"
    by (simp add: ranMonday_def)
  have b: "''Mon Nov 02 2026'' \<noteq> ''Tue Nov 03 2026''"
    by simp
  have c: "list_all (\<lambda>n. \<not> (toDateString n = ''Tue Nov 03 2026'' \<and> matches CheckIn n))
        (concat (map readsOf [ChildExit (Some 1), at tuesdayMidnight]))"
    by (simp add: scheduler_defs)
  have d: "Signal \<notin> set [ChildExit (Some 1), at tuesdayMidnight]"
    by (simp add: at_def)
  have e: "matches CheckIn (readFor CheckIn (tuesdaySix, tuesdaySix, tuesdaySix))"
    by (simp add: scheduler_defs)
  have f: "toDateString (readFor CheckIn (tuesdaySix, tuesdaySix, tuesdaySix)) = ''Tue Nov 03 2026''"
    by (simp add: tuesdaySix_def)
  show ?thesis
    using a b c d e f fires_again_on_later_day [OF a b c d e f] by simp
qed

lemma run_stays_running:
  "Signal \<notin> set ins \<Longrightarrow> \<exists>m'. snd (run ins (Running m)) = Running m'"
proof (induction ins arbitrary: m)
  case Nil
  then show ?case by simp
next
  case (Cons i ins)
  then show ?case
    by (cases i) (simp_all add: run_Cons_snd step_Tick del: run.simps step.simps(2))
qed

lemma spawn_mem_fires: "Spawn t \<in> set (fst (tick r m)) \<Longrightarrow> fires t r m"
proof -
  assume a: "Spawn t \<in> set (fst (tick r m))"
  have "spawns t (fst (tick r m)) \<noteq> 0"
    using a by (auto simp add: spawns_def filter_empty_conv)
  then show ?thesis by (simp add: tick_spawns split: if_splits)
qed

text \<open>
  Claim C10. When the scheduler fires a target it records the date before it spawns the
  flow, and the outcome of the spawned run changes nothing. Let a callback run spawn the
  flow for target \<open>t\<close> on the day \<open>d\<close>, and let any inputs of the same day follow
  (child errors, child exits with any code, further callbacks). Then: the state the
  callback leaves holds \<open>d\<close> as the marker of \<open>t\<close>; the inputs that follow spawn
  nothing for \<open>t\<close>; unless a signal arrives the monitor is still running at the end;
  a child error and a child exit with a code other than 0 each write one log line of
  level ERROR and leave the monitor running in the same state; and whenever
  \<open>shouldRunCheckin\<close> or \<open>shouldRunCheckout\<close> answers true, the state it returns,
  which is the state in which the spawn is then made, already holds the date.
\<close>

theorem failed_run_not_retried:
  assumes "withinDay d (Tick r # ins)" and "Spawn t \<in> set (fst (tick r m))"
  shows "marker t (snd (tick r m)) = Some d
    \<and> spawns t (fst (run ins (Running (snd (tick r m))))) = 0
    \<and> (Signal \<notin> set ins \<longrightarrow> (\<exists>m'. snd (run ins (Running (snd (tick r m)))) = Running m'))
    \<and> (\<forall>msg m'. step (ChildError msg) (Running m')
          = ([MLog ERROR (''Error running script: '' @ msg)], Running m'))
    \<and> (\<forall>c m'. c \<noteq> Some 0 \<longrightarrow> step (ChildExit c) (Running m')
          = ([MLog ERROR (''Check-in/check-out script exited with code '' @ showCode c)], Running m'))
    \<and> (\<forall>n m0. fst (shouldRunCheckin n m0)
          \<longrightarrow> lastCheckinDate (snd (shouldRunCheckin n m0)) = Some (toDateString n))
    \<and> (\<forall>n m0. fst (shouldRunCheckout n m0)
          \<longrightarrow> lastCheckoutDate (snd (shouldRunCheckout n m0)) = Some (toDateString n))"
proof -
  have f: "fires t r m" using assms(2) by (rule spawn_mem_fires)
  note facts = withinDay_after_fire [OF assms(1) f]
  have mk: "marker t (snd (tick r m)) = Some d"
    using facts(2,3) f by (simp add: tick_marker)
  have quiet: "spawns t (fst (run ins (Running (snd (tick r m))))) = 0"
    using no_refire [OF facts(1) mk] .
  have alive: "Signal \<notin> set ins \<longrightarrow> (\<exists>m'. snd (run ins (Running (snd (tick r m)))) = Running m')"
    using run_stays_running by blast
  have rec1: "\<forall>n m0. fst (shouldRunCheckin n m0)
          \<longrightarrow> lastCheckinDate (snd (shouldRunCheckin n m0)) = Some (toDateString n)"
    by (simp add: shouldRunCheckin_def)
  have rec2: "\<forall>n m0. fst (shouldRunCheckout n m0)
          \<longrightarrow> lastCheckoutDate (snd (shouldRunCheckout n m0)) = Some (toDateString n)"
    by (simp add: shouldRunCheckout_def)
  show ?thesis using mk quiet alive rec1 rec2 by simp
qed

text \<open>
  The check-in fires at 06:00 on Monday; the spawn fails, the child exits with code 1,
  the callback runs again within the same minute, a child is killed by a signal.
\<close>

theorem failed_run_not_retried_witness:
  "withinDay ''Mon Nov 02 2026'' (Tick (mondaySix, mondaySix, mondaySix) # afterFailure)
   \<and> Spawn CheckIn \<in> set (fst (tick (mondaySix, mondaySix, mondaySix) idle))
   \<and> marker CheckIn (snd (tick (mondaySix, mondaySix, mondaySix) idle)) = Some ''Mon Nov 02 2026''
   \<and> spawns CheckIn (fst (run afterFailure
        (Running (snd (tick (mondaySix, mondaySix, mondaySix) idle))))) = 0
   \<and> Signal \<notin> set afterFailure
   \<and> (\<exists>m'. snd (run afterFailure (Running (snd (tick (mondaySix, mondaySix, mondaySix) idle))))
          = Running m')
   \<and> Some 1 \<noteq> Some (0::int)
   \<and> step (ChildExit (Some 1)) (Running idle)
        = ([MLog ERROR ''Check-in/check-out script exited with code 1''], Running idle)
   \<and> fst (shouldRunCheckin mondaySix idle)
   \<and> lastCheckinDate (snd (shouldRunCheckin mondaySix idle)) = Some (toDateString mondaySix)
   \<and> fst (shouldRunCheckout (mondaySix\<lparr>getHours := 13, getMinutes := 45\<rparr>) idle)
   \<and> lastCheckoutDate (snd (shouldRunCheckout (mondaySix\<lparr>getHours := 13, getMinutes := 45\<rparr>) idle))
        = Some ''Mon Nov 02 2026''"
proof -
  have w: "withinDay ''Mon Nov 02 2026'' (Tick (mondaySix, mondaySix, mondaySix) # afterFailure)"
    by (simp add: scheduler_defs afterFailure_def)
  have s: "Spawn CheckIn \<in> set (fst (tick (mondaySix, mondaySix, mondaySix) idle))"
    by (simp add: scheduler_defs)
  have n: "Signal \<notin> set afterFailure"
    by (simp add: afterFailure_def at_def)
  have c: "step (ChildExit (Some 1)) (Running idle)
        = ([MLog ERROR ''Check-in/check-out script exited with code 1''], Running idle)"
    by (simp add: showCode_def showInt_def digitChar_def)
  have i: "fst (shouldRunCheckin mondaySix idle)"
    by (simp add: scheduler_defs)
  have o: "fst (shouldRunCheckout (mondaySix\<lparr>getHours := 13, getMinutes := 45\<rparr>) idle)"
    by (simp add: scheduler_defs)
  have t: "toDateString mondaySix = ''Mon Nov 02 2026''"
    by (simp add: mondaySix_def)
  show ?thesis
    using w s n c i o t failed_run_not_retried [OF w s] by simp
qed

section \<open>Properties of the network gate\<close>

text \<open>
  Claim C5. \<open>isOnOfficeWiFi\<close> returns true if and only if a network name was detected
  (a non-empty string) and it equals, character for character, one entry of the
  expected set: the trimmed pieces of a comma-separated string, or the entries of an
  array. It returns false, and has no path that throws, when detection was
  inconclusive (\<open>null\<close> or the empty string) and when the expected value is absent or
  malformed (\<open>undefined\<close>, \<open>null\<close>, the empty string, the empty array, a number, a
  boolean, an object).
\<close>

theorem expected_network:
  "snd (isOnOfficeWiFi e d) = (\<exists>n. d = Some n \<and> n \<noteq> [] \<and> n \<in> expectedSet e)
   \<and> snd (isOnOfficeWiFi e None) = False
   \<and> snd (isOnOfficeWiFi e (Some [])) = False
   \<and> snd (isOnOfficeWiFi Undefined d) = False
   \<and> snd (isOnOfficeWiFi Null d) = False
   \<and> snd (isOnOfficeWiFi (String []) d) = False
   \<and> snd (isOnOfficeWiFi (Array []) d) = False
   \<and> snd (isOnOfficeWiFi (Number k) d) = False
   \<and> snd (isOnOfficeWiFi (Boolean b) d) = False
   \<and> snd (isOnOfficeWiFi Object d) = False"
proof -
  have main: "\<And>e d. snd (isOnOfficeWiFi e d) = (\<exists>n. d = Some n \<and> n \<noteq> [] \<and> n \<in> expectedSet e)"
  proof -
    fix e d
    show "snd (isOnOfficeWiFi e d) = (\<exists>n. d = Some n \<and> n \<noteq> [] \<and> n \<in> expectedSet e)"
      by (cases e; cases d)
         (auto simp add: isOnOfficeWiFi_def expectedSet_def splitTrimmed_def truthy_def showStr_def
            Let_def trim_Nil filter_empty_conv)
  qed
  show ?thesis
    by (simp add: main expectedSet_def trim_Nil)
qed

text \<open>
  On \<open>iScale_M, Office\<close> the detected name \<open>Office\<close> is accepted, and the name
  \<open>Office \<close> with a trailing blank is not.
\<close>

theorem expected_network_witness:
  "snd (isOnOfficeWiFi (String ''iScale_M, Office'') (Some ''Office''))
   \<and> ''Office'' \<in> expectedSet (String ''iScale_M, Office'')
   \<and> \<not> snd (isOnOfficeWiFi (String ''iScale_M, Office'') (Some ''Office ''))"
proof -
  have a: "snd (isOnOfficeWiFi (String ''iScale_M, Office'') (Some ''Office''))"
    by (simp add: isOnOfficeWiFi_def splitTrimmed_def trim_def isWhiteSpace_def truthy_def showStr_def)
  have b: "\<not> snd (isOnOfficeWiFi (String ''iScale_M, Office'') (Some ''Office ''))"
    by (simp add: isOnOfficeWiFi_def splitTrimmed_def trim_def isWhiteSpace_def truthy_def showStr_def)
  show ?thesis
    using a b expected_network [of "String ''iScale_M, Office''" "Some ''Office''"] by auto
qed

section \<open>Properties of the check-in script\<close>

lemmas block_defs = ret_def emit_def throw_def settle_def await_def bindB_def orCatch_def swallow_def

lemmas script_defs = main_def performZohoCheckin_def validate_def launchStep_def untilAction_def
  openPageStep_def loginStep_def navigateStep_def actionStep_def catchBlock_def finallyBlock_def
  handleGoogleLogin_def handlePasswordLogin_def tryGoogleButton_def tryActionSelector_def
  findActionButton_def pressActionButton_def actionTypeOf_def actionSelectors_def
  googleButtonSelectors_def useHeadless_def USE_GOOGLE_LOGIN_def USE_PERSISTENT_CONTEXT_def
  USER_DATA_DIR_def ZOHO_URL_def ZOHO_EMAIL_def ZOHO_PASSWORD_def checkinUrl_def
  finalScreenshot_def STORAGE_STATE_PATH_def truthy_def orElse_def showStr_def

lemmas scenario_defs = onlyEmail_def loggedOut_def loggedIn_def emptyPage_def loginAddress_def
  homeAddress_def

lemma bindB_pair: "bindB (es, Inr x) f = (es @ fst (f x), snd (f x))"
  by (simp add: bindB_def split: prod.splits)

text \<open>
  Claim C4. A configuration without the account identifier ends the run with exit code 1
  before any network action: when \<open>ZOHO_EMAIL\<close> is unset or empty, whatever the
  world, the whole trace of the run is one log line of level ERROR, so that no browser
  is launched and no page is opened or navigated, and the exit code is 1.
\<close>

theorem missing_account_exits_first:
  assumes "\<not> truthy (ZOHO_EMAIL e)"
  shows "main e w =
           ([Log ERROR ''Zoho email not configured. Please set ZOHO_EMAIL environment variable.''], 1)
         \<and> filter (\<lambda>ev. \<not> isLog ev) (fst (main e w)) = []"
  using assms by (simp add: main_def performZohoCheckin_def validate_def)

theorem missing_account_exits_first_witness:
  "\<not> truthy (ZOHO_EMAIL (onlyEmail\<lparr>env_ZOHO_EMAIL := None\<rparr>))
   \<and> main (onlyEmail\<lparr>env_ZOHO_EMAIL := None\<rparr>) loggedOut =
       ([Log ERROR ''Zoho email not configured. Please set ZOHO_EMAIL environment variable.''], 1)
   \<and> filter (\<lambda>ev. \<not> isLog ev) (fst (main (onlyEmail\<lparr>env_ZOHO_EMAIL := None\<rparr>) loggedOut)) = []"
proof -
  have h: "\<not> truthy (ZOHO_EMAIL (onlyEmail\<lparr>env_ZOHO_EMAIL := None\<rparr>))"
    by (simp add: truthy_def ZOHO_EMAIL_def)
  show ?thesis
    using h missing_account_exits_first [OF h, of loggedOut] by simp
qed

text \<open>
  Claim C7. When the address of the landing page contains neither \<open>signin\<close> nor
  \<open>login\<close>, the login is skipped entirely and the run goes on to the action steps.
  Step 5 leaves two log lines in the trace (the address, and that the session is already
  logged in) and returns normally, with no query for a login control, no fill, no click
  and no navigation. For a run that reaches the landing page (the validation passes, the
  browser is launched, the page is opened and navigated to the login address), the trace
  of the whole run is: the validation, the launch, the opening of the page, those two log
  lines, then step 6 and the action steps 7 and 8, and then the end of the run, which is
  the \<open>catch\<close> block and exit code 1 when step 6 or the action steps throw, and
  otherwise the \<open>finally\<close> block and exit code 0 (1 when closing the browser throws).
  The run does not depend on anything the login would have consulted (the content of the
  login page, the wait for the email input, the Enter key, the address after the login,
  the saving of the session).
\<close>

theorem authenticated_session_skips_login:
  assumes "\<not> isLoginAddress (landingUrl w)"
  shows "loginStep e w =
           ([Log INFO (''Current URL: '' @ landingUrl w),
             Log INFO ''Already logged in using saved session''], Inr ())
         \<and> (\<forall>es0 es1 browser es2.
               validate e w = (es0, None) \<and> launchStep e w = (es1, Inr browser)
               \<and> openPageStep e w = (es2, Inr ()) \<longrightarrow>
               main e w =
                 (case bindB (navigateStep e w) (\<lambda>u. actionStep e w) of
                    (es3, Inl err) \<Rightarrow>
                      (es0 @ es1 @ es2
                       @ [Log INFO (''Current URL: '' @ landingUrl w),
                          Log INFO ''Already logged in using saved session'']
                       @ es3 @ catchBlock browser w err, 1)
                  | (es3, Inr u) \<Rightarrow>
                      (case finallyBlock browser w of
                         (es4, Inl err) \<Rightarrow>
                           (es0 @ es1 @ es2
                            @ [Log INFO (''Current URL: '' @ landingUrl w),
                               Log INFO ''Already logged in using saved session'']
                            @ es3 @ es4 @ [Log ERROR (''Fatal error: '' @ message err)], 1)
                       | (es4, Inr u') \<Rightarrow>
                           (es0 @ es1 @ es2
                            @ [Log INFO (''Current URL: '' @ landingUrl w),
                               Log INFO ''Already logged in using saved session'']
                            @ es3 @ es4 @ [Log INFO ''Script execution completed''], 0))))
         \<and> bindB (untilAction e w) (\<lambda>u. actionStep e w) =
             bindB (openPageStep e w) (\<lambda>u.
             bindB (emit [Log INFO (''Current URL: '' @ landingUrl w),
                          Log INFO ''Already logged in using saved session'']) (\<lambda>u.
             bindB (navigateStep e w) (\<lambda>u. actionStep e w)))
         \<and> (\<forall>pg x y u z.
               main e (w\<lparr>loginPage := pg, waitForEmailInput := x, pressEnter := y,
                          postLoginUrl := u, storageState := z\<rparr>) = main e w)"
proof -
  have l: "loginStep e w =
           ([Log INFO (''Current URL: '' @ landingUrl w),
             Log INFO ''Already logged in using saved session''], Inr ())"
    using assms by (simp add: loginStep_def isLoginAddress_def emit_def bindB_def)
  have "bindB (untilAction e w) (\<lambda>u. actionStep e w) =
             bindB (openPageStep e w) (\<lambda>u.
             bindB (loginStep e w) (\<lambda>u.
             bindB (navigateStep e w) (\<lambda>u. actionStep e w)))"
    by (simp add: untilAction_def bindB_def ret_def split: prod.splits sum.splits)
  then have b: "bindB (untilAction e w) (\<lambda>u. actionStep e w) =
             bindB (openPageStep e w) (\<lambda>u.
             bindB (emit [Log INFO (''Current URL: '' @ landingUrl w),
                          Log INFO ''Already logged in using saved session'']) (\<lambda>u.
             bindB (navigateStep e w) (\<lambda>u. actionStep e w)))"
    using l by (simp add: emit_def)
  have r: "main e w =
                 (case bindB (navigateStep e w) (\<lambda>u. actionStep e w) of
                    (es3, Inl err) \<Rightarrow>
                      (es0 @ es1 @ es2
                       @ [Log INFO (''Current URL: '' @ landingUrl w),
                          Log INFO ''Already logged in using saved session'']
                       @ es3 @ catchBlock browser w err, 1)
                  | (es3, Inr u) \<Rightarrow>
                      (case finallyBlock browser w of
                         (es4, Inl err) \<Rightarrow>
                           (es0 @ es1 @ es2
                            @ [Log INFO (''Current URL: '' @ landingUrl w),
                               Log INFO ''Already logged in using saved session'']
                            @ es3 @ es4 @ [Log ERROR (''Fatal error: '' @ message err)], 1)
                       | (es4, Inr u') \<Rightarrow>
                           (es0 @ es1 @ es2
                            @ [Log INFO (''Current URL: '' @ landingUrl w),
                               Log INFO ''Already logged in using saved session'']
                            @ es3 @ es4 @ [Log INFO ''Script execution completed''], 0)))"
    if reach: "validate e w = (es0, None)" "launchStep e w = (es1, Inr browser)"
      "openPageStep e w = (es2, Inr ())"
    for es0 es1 browser es2
  proof -
    obtain es3 r3 where n: "bindB (navigateStep e w) (\<lambda>u. actionStep e w) = (es3, r3)"
      by (cases "bindB (navigateStep e w) (\<lambda>u. actionStep e w)") auto
    have t: "bindB (untilAction e w) (\<lambda>u. actionStep e w) =
        (es2 @ [Log INFO (''Current URL: '' @ landingUrl w),
                Log INFO ''Already logged in using saved session''] @ es3, r3)"
      by (simp add: b reach(3) n bindB_pair emit_def)
    obtain es4 r4 where f: "finallyBlock browser w = (es4, r4)"
      by (cases "finallyBlock browser w") auto
    show ?thesis
      by (cases r3; cases r4) (simp_all add: main_def performZohoCheckin_def reach t n f)
  qed
  have i: "main e (w\<lparr>loginPage := pg, waitForEmailInput := x, pressEnter := y,
                     postLoginUrl := u, storageState := z\<rparr>) = main e w" for pg x y u z
  proof -
    let ?w = "w\<lparr>loginPage := pg, waitForEmailInput := x, pressEnter := y,
                 postLoginUrl := u, storageState := z\<rparr>"
    have l': "loginStep e ?w = loginStep e w"
      using assms by (simp add: loginStep_def isLoginAddress_def)
    have u: "untilAction e ?w = untilAction e w"
      by (simp add: untilAction_def l' openPageStep_def navigateStep_def cong: if_cong)
    have a: "actionStep e ?w = actionStep e w"
      by (simp add: actionStep_def finalScreenshot_def cong: if_cong)
    have v: "validate e ?w = validate e w"
      by (simp add: validate_def cong: if_cong)
    have s: "launchStep e ?w = launchStep e w"
      by (simp add: launchStep_def cong: if_cong)
    have c: "\<And>b err. catchBlock b ?w err = catchBlock b w err"
      by (simp add: catchBlock_def cong: if_cong)
    have f: "\<And>b. finallyBlock b ?w = finallyBlock b w"
      by (simp add: finallyBlock_def cong: if_cong)
    show ?thesis
      by (simp only: main_def performZohoCheckin_def u a v s c f)
  qed
  show ?thesis using l b i r by blast
qed

text \<open>
  The landing page is the attendance screen, on a persistent context: the run is the
  validation, the launch, the opening of the page, the two log lines, step 6 and the
  action steps, and it ends with exit code 0; it is the same when the login page is
  replaced by another one, and it never looks for the Google control.
\<close>

theorem authenticated_session_skips_login_witness:
  "\<not> isLoginAddress (landingUrl loggedIn)
   \<and> validate onlyEmail loggedIn = (fst (validate onlyEmail loggedIn), None)
   \<and> launchStep onlyEmail loggedIn = (fst (launchStep onlyEmail loggedIn), Inr False)
   \<and> openPageStep onlyEmail loggedIn = (fst (openPageStep onlyEmail loggedIn), Inr ())
   \<and> loginStep onlyEmail loggedIn =
       ([Log INFO (''Current URL: '' @ landingUrl loggedIn),
         Log INFO ''Already logged in using saved session''], Inr ())
   \<and> main onlyEmail loggedIn =
       (fst (validate onlyEmail loggedIn) @ fst (launchStep onlyEmail loggedIn)
        @ fst (openPageStep onlyEmail loggedIn)
        @ [Log INFO (''Current URL: '' @ landingUrl loggedIn),
           Log INFO ''Already logged in using saved session'']
        @ fst (bindB (navigateStep onlyEmail loggedIn) (\<lambda>u. actionStep onlyEmail loggedIn))
        @ [Log INFO ''Script execution completed''], 0)
   \<and> main onlyEmail (loggedIn\<lparr>loginPage := signinPage, waitForEmailInput := Rejected ''Timeout'',
        pressEnter := Rejected ''Timeout'', postLoginUrl := loginAddress,
        storageState := Rejected ''EACCES''\<rparr>) = main onlyEmail loggedIn
   \<and> Log INFO ''Looking for Google login button...'' \<notin> set (fst (main onlyEmail loggedIn))"
proof -
  have h: "\<not> isLoginAddress (landingUrl loggedIn)"
    by (simp add: isLoginAddress_def loggedIn_def homeAddress_def)
  have v: "validate onlyEmail loggedIn = (fst (validate onlyEmail loggedIn), None)"
    by (simp add: script_defs scenario_defs)
  have s: "launchStep onlyEmail loggedIn = (fst (launchStep onlyEmail loggedIn), Inr False)"
    by (simp add: script_defs block_defs scenario_defs)
  have p: "openPageStep onlyEmail loggedIn = (fst (openPageStep onlyEmail loggedIn), Inr ())"
    by (simp add: script_defs block_defs scenario_defs)
  have a: "bindB (navigateStep onlyEmail loggedIn) (\<lambda>u. actionStep onlyEmail loggedIn) =
      (fst (bindB (navigateStep onlyEmail loggedIn) (\<lambda>u. actionStep onlyEmail loggedIn)), Inr ())"
    by (simp add: script_defs block_defs scenario_defs defaultActionSelectors_def)
  have f: "finallyBlock False loggedIn = ([], Inr ())"
    by (simp add: finallyBlock_def ret_def)
  have n: "Log INFO ''Looking for Google login button...'' \<notin> set (fst (main onlyEmail loggedIn))"
    by (simp add: script_defs block_defs scenario_defs defaultActionSelectors_def)
  note t = authenticated_session_skips_login [OF h, of onlyEmail]
  have m: "main onlyEmail loggedIn =
       (fst (validate onlyEmail loggedIn) @ fst (launchStep onlyEmail loggedIn)
        @ fst (openPageStep onlyEmail loggedIn)
        @ [Log INFO (''Current URL: '' @ landingUrl loggedIn),
           Log INFO ''Already logged in using saved session'']
        @ fst (bindB (navigateStep onlyEmail loggedIn) (\<lambda>u. actionStep onlyEmail loggedIn))
        @ [Log INFO ''Script execution completed''], 0)"
  proof -
    from t have "main onlyEmail loggedIn =
        (case bindB (navigateStep onlyEmail loggedIn) (\<lambda>u. actionStep onlyEmail loggedIn) of
           (es3, Inl err) \<Rightarrow>
             (fst (validate onlyEmail loggedIn) @ fst (launchStep onlyEmail loggedIn)
              @ fst (openPageStep onlyEmail loggedIn)
              @ [Log INFO (''Current URL: '' @ landingUrl loggedIn),
                 Log INFO ''Already logged in using saved session'']
              @ es3 @ catchBlock False loggedIn err, 1)
         | (es3, Inr u) \<Rightarrow>
             (case finallyBlock False loggedIn of
                (es4, Inl err) \<Rightarrow>
                  (fst (validate onlyEmail loggedIn) @ fst (launchStep onlyEmail loggedIn)
                   @ fst (openPageStep onlyEmail loggedIn)
                   @ [Log INFO (''Current URL: '' @ landingUrl loggedIn),
                      Log INFO ''Already logged in using saved session'']
                   @ es3 @ es4 @ [Log ERROR (''Fatal error: '' @ message err)], 1)
              | (es4, Inr u') \<Rightarrow>
                  (fst (validate onlyEmail loggedIn) @ fst (launchStep onlyEmail loggedIn)
                   @ fst (openPageStep onlyEmail loggedIn)
                   @ [Log INFO (''Current URL: '' @ landingUrl loggedIn),
                      Log INFO ''Already logged in using saved session'']
                   @ es3 @ es4 @ [Log INFO ''Script execution completed''], 0)))"
      using v s p by blast
    then show ?thesis
      by (subst (asm) a) (simp add: f)
  qed
  show ?thesis
    using h v s p m n t by simp
qed

lemma tryActionSelector_no_match:
  assumes "\<not> visibleMatch pg sel"
  shows "snd (tryActionSelector pg aty sel) = (False, aty)
         \<and> (\<forall>s. Click s \<notin> set (fst (tryActionSelector pg aty sel)))"
proof (cases "pg sel")
  case (Rejected msg)
  then show ?thesis
    by (simp add: tryActionSelector_def findActionButton_def block_defs)
next
  case (Resolved found)
  show ?thesis
  proof (cases found)
    case None
    with Resolved show ?thesis
      by (simp add: tryActionSelector_def findActionButton_def block_defs)
  next
    case (Some el)
    with Resolved assms have "isVisible el \<noteq> Resolved True"
      by (simp add: visibleMatch_def)
    then have "\<not> orCatch (isVisible el) False"
      by (cases "isVisible el") (auto simp add: orCatch_def)
    with Resolved Some show ?thesis
      by (simp add: tryActionSelector_def findActionButton_def block_defs)
  qed
qed

lemma actionLoop_no_match:
  "\<forall>sel \<in> set sels. \<not> visibleMatch pg sel \<Longrightarrow>
   snd (actionLoop pg aty sels) = (False, aty)
   \<and> (\<forall>s. Click s \<notin> set (fst (actionLoop pg aty sels)))"
proof (induction sels)
  case Nil
  then show ?case by simp
next
  case (Cons sel sels)
  have one: "snd (tryActionSelector pg aty sel) = (False, aty)"
    "\<forall>s. Click s \<notin> set (fst (tryActionSelector pg aty sel))"
    using tryActionSelector_no_match [of pg sel aty] Cons.prems by simp_all
  have rest: "snd (actionLoop pg aty sels) = (False, aty)"
    "\<forall>s. Click s \<notin> set (fst (actionLoop pg aty sels))"
    using Cons by simp_all
  obtain es where es: "tryActionSelector pg aty sel = (es, False, aty)"
    using one(1) by (cases "tryActionSelector pg aty sel") auto
  obtain es' where es': "actionLoop pg aty sels = (es', False, aty)"
    using rest(1) by (cases "actionLoop pg aty sels") auto
  show ?case
    using es es' one(2) rest(2) by simp
qed

lemma actionStep_no_match:
  assumes nomatch: "\<forall>sel \<in> set (actionSelectors e). \<not> visibleMatch (actionPage w) sel"
    and shots: "screenshot w ''logs/checkin-not-found.png'' = Resolved ()"
      "screenshot w (finalScreenshot w) = Resolved ()"
  shows "actionStep e w =
     (Log INFO ''Looking for check-in/check-out button...'' # selectorsLog e
        # fst (actionLoop (actionPage w) ''unknown'' (actionSelectors e)) @ notFoundReport w,
      Inr ())"
proof -
  obtain es where es: "actionLoop (actionPage w) ''unknown'' (actionSelectors e) = (es, False, ''unknown'')"
    using actionLoop_no_match [OF nomatch, of "''unknown''"]
    by (cases "actionLoop (actionPage w) ''unknown'' (actionSelectors e)") auto
  show ?thesis
    using shots by (simp add: actionStep_def es block_defs notFoundReport_def selectorsLog_def)
qed

text \<open>
  Claim C8. When no selector of the action list yields a visible match, the run records
  the failure without raising and still ends with exit code 0. Let the run reach step 7
  (the validation passes, the browser is launched, and the steps up to the action
  screen return normally), let no selector of the list in use yield a visible match
  (the element is absent, not visible, or the query or the visibility check throws),
  and let the engine take the two screenshots and, where a browser was launched, close
  it. Then no element is clicked, and the trace of the run ends with the error log
  line, the diagnostic screenshot \<open>logs/checkin-not-found.png\<close>, the final
  time-stamped screenshot, the two closing log lines, the closing of the browser and the
  line \<open>Script execution completed\<close>; the exit code is 0.
\<close>

theorem no_action_control_still_succeeds:
  assumes reach: "validate e w = (es0, None)" "launchStep e w = (es1, Inr browser)"
      "untilAction e w = (es2, Inr ())"
    and nomatch: "\<forall>sel \<in> set (actionSelectors e). \<not> visibleMatch (actionPage w) sel"
    and shots: "screenshot w ''logs/checkin-not-found.png'' = Resolved ()"
      "screenshot w (finalScreenshot w) = Resolved ()"
    and close: "browser \<longrightarrow> closeBrowser w = Resolved ()"
  shows "main e w =
     (es0 @ es1 @ es2
        @ Log INFO ''Looking for check-in/check-out button...'' # selectorsLog e
        # fst (actionLoop (actionPage w) ''unknown'' (actionSelectors e))
        @ notFoundReport w
        @ (if browser then [CloseBrowser, Log INFO ''Browser closed''] else [])
        @ [Log INFO ''Script execution completed''],
      0)
    \<and> (\<forall>sel. Click sel \<notin> set (fst (actionLoop (actionPage w) ''unknown'' (actionSelectors e))))"
proof -
  note a = actionStep_no_match [OF nomatch shots]
  have f: "finallyBlock browser w =
      ((if browser then [CloseBrowser, Log INFO ''Browser closed''] else []), Inr ())"
    using close by (simp add: finallyBlock_def block_defs)
  have "main e w =
     (es0 @ es1 @ es2
        @ Log INFO ''Looking for check-in/check-out button...'' # selectorsLog e
        # fst (actionLoop (actionPage w) ''unknown'' (actionSelectors e))
        @ notFoundReport w
        @ (if browser then [CloseBrowser, Log INFO ''Browser closed''] else [])
        @ [Log INFO ''Script execution completed''],
      0)"
    by (simp add: main_def performZohoCheckin_def reach a f bindB_def)
  then show ?thesis
    using actionLoop_no_match [OF nomatch, of "''unknown''"] by simp
qed

text \<open>
  A logged-in session on a plain (not persistent) browser whose action screen holds
  none of the default controls: the run exits with code 0 after both screenshots.
\<close>

theorem no_action_control_still_succeeds_witness:
  "validate plainBrowser loggedIn = (fst (validate plainBrowser loggedIn), None)
   \<and> launchStep plainBrowser loggedIn = (fst (launchStep plainBrowser loggedIn), Inr True)
   \<and> untilAction plainBrowser loggedIn = (fst (untilAction plainBrowser loggedIn), Inr ())
   \<and> list_all (\<lambda>sel. \<not> visibleMatch (actionPage loggedIn) sel) (actionSelectors plainBrowser)
   \<and> screenshot loggedIn ''logs/checkin-not-found.png'' = Resolved ()
   \<and> screenshot loggedIn (finalScreenshot loggedIn) = Resolved ()
   \<and> closeBrowser loggedIn = Resolved ()
   \<and> snd (main plainBrowser loggedIn) = 0
   \<and> Screenshot ''logs/checkin-not-found.png'' \<in> set (fst (main plainBrowser loggedIn))
   \<and> Screenshot (finalScreenshot loggedIn) \<in> set (fst (main plainBrowser loggedIn))"
proof -
  have v: "validate plainBrowser loggedIn = (fst (validate plainBrowser loggedIn), None)"
    by (simp add: script_defs plainBrowser_def scenario_defs)
  have l: "launchStep plainBrowser loggedIn = (fst (launchStep plainBrowser loggedIn), Inr True)"
    by (simp add: script_defs block_defs plainBrowser_def scenario_defs)
  have u: "untilAction plainBrowser loggedIn = (fst (untilAction plainBrowser loggedIn), Inr ())"
    by (simp add: script_defs block_defs plainBrowser_def scenario_defs)
  have n: "\<forall>sel \<in> set (actionSelectors plainBrowser). \<not> visibleMatch (actionPage loggedIn) sel"
    by (simp add: visibleMatch_def scenario_defs)
  have s1: "screenshot loggedIn ''logs/checkin-not-found.png'' = Resolved ()"
    by (simp add: scenario_defs)
  have s2: "screenshot loggedIn (finalScreenshot loggedIn) = Resolved ()"
    by (simp add: scenario_defs)
  have c: "closeBrowser loggedIn = Resolved ()"
    by (simp add: scenario_defs)
  have c': "True \<longrightarrow> closeBrowser loggedIn = Resolved ()"
    using c by simp
  note t = no_action_control_still_succeeds [OF v l u n s1 s2 c']
  have e: "snd (main plainBrowser loggedIn) = 0"
    using t by simp
  have m1: "Screenshot ''logs/checkin-not-found.png'' \<in> set (fst (main plainBrowser loggedIn))"
    using t by (simp add: notFoundReport_def)
  have m2: "Screenshot (finalScreenshot loggedIn) \<in> set (fst (main plainBrowser loggedIn))"
    using t by (simp add: notFoundReport_def)
  show ?thesis
    using v l u n s1 s2 c e m1 m2 by (simp add: list_all_iff)
qed

text \<open>
  Claim C9, as amended. For a matched action control whose text and \<open>aria-label\<close> are
  both strings, the action is classified without regard to case: as check-in when the
  text or the label contains \<open>check-in\<close>; otherwise as check-out when the text or the
  label contains \<open>check-out\<close>; otherwise as check-out when the text contains \<open>out\<close>
  (the label is not consulted here); and as check-in in every other case.
\<close>

theorem action_type_classification:
  "actionTypeOf (Some bt) (Some al) =
     Inr (if containsIgnoringCase bt ''check-in'' \<or> containsIgnoringCase al ''check-in''
          then ''check-in''
          else if containsIgnoringCase bt ''check-out'' \<or> containsIgnoringCase al ''check-out''
          then ''check-out''
          else if containsIgnoringCase bt ''out'' then ''check-out''
          else ''check-in'')"
  by (simp add: actionTypeOf_def containsIgnoringCase_includes)

text \<open>
  Claim C9 as stated (a substring match on \<open>in\<close> and \<open>out\<close> in the text or the
  label) fails: a control with no text whose label reads \<open>Punch out\<close> is classified
  as check-in, although \<open>out\<close> occurs in its label and \<open>in\<close> occurs nowhere; the
  same words as the text of the control give check-out.
\<close>

theorem action_type_counterexample:
  "actionTypeOf (Some []) (Some ''Punch out'') = Inr ''check-in''
   \<and> specActionType [] ''Punch out'' = ''check-out''
   \<and> actionTypeOf (Some ''Punch out'') (Some []) = Inr ''check-out''"
  by (simp add: actionTypeOf_def specActionType_def toLowerCase_def toLowerChar_def)

text \<open>
  Claim C1 says that in every selector list the element acted upon is the first
  candidate that exists and is visible. The action loop departs from it: a visible
  button that reads \<open>Check-out\<close> and has no \<open>aria-label\<close> attribute makes
  \<open>ariaLabel.toLowerCase()\<close> throw; the loop's \<open>catch\<close> logs the error and moves
  on. With the default selectors the first two candidates exist and are visible, and the
  element clicked is the third candidate, another button.
\<close>

theorem first_visible_candidate_not_acted_upon:
  \<open>visibleMatch attendancePage ''#ZPAtt_check_in_out''
   \<and> actionLoop attendancePage ''unknown'' defaultActionSelectors =
       ([WaitForSelector ''#ZPAtt_check_in_out'', Query ''#ZPAtt_check_in_out'',
         Log INFO ''Error trying selector #ZPAtt_check_in_out: Cannot read properties of null'',
         WaitForSelector ''button#ZPAtt_check_in_out'', Query ''button#ZPAtt_check_in_out'',
         Log INFO ''Error trying selector button#ZPAtt_check_in_out: Cannot read properties of null'',
         WaitForSelector ''button[aria-label*="Check"]'', Query ''button[aria-label*="Check"]'',
         Log INFO ''Found check-in button. Button text: "Check history", Aria-label: "Check history"'',
         ScrollIntoView ''button[aria-label*="Check"]'',
         WaitForTimeout 500,
         Click ''button[aria-label*="Check"]'',
         Log INFO ''check-in performed using selector: button[aria-label*="Check"]'',
         WaitForTimeout 3000,
         WaitForTimeout 2000,
         Log INFO ''Button text after action: "Check history"''],
        True, ''check-in'')
   \<and> visibleMatch attendancePage ''button#ZPAtt_check_in_out''\<close>
  by (simp add: visibleMatch_def attendancePage_def checkoutButton_def historyButton_def
      defaultActionSelectors_def tryActionSelector_def findActionButton_def pressActionButton_def
      actionTypeOf_def nullDeref_def block_defs showStr_def Let_def
      toLowerCase_def toLowerChar_def)

text \<open>
  The loop of \<open>handleGoogleLogin\<close> does follow the policy of claim C1: when the
  candidates before \<open>sel\<close> yield no visible match and \<open>sel\<close> yields a visible element
  on which scrolling and clicking succeed, the loop ends with success and the one click
  it makes is on \<open>sel\<close>.
\<close>

lemma forEachUntil_first:
  "\<forall>s \<in> set pre. \<not> snd (body s) \<Longrightarrow> snd (body sel) \<Longrightarrow>
   forEachUntil body (pre @ sel # post) = (concat (map (\<lambda>s. fst (body s)) pre) @ fst (body sel), True)"
proof (induction pre)
  case Nil
  then show ?case by (cases "body sel") auto
next
  case (Cons a pre)
  then show ?case by (cases "body a") auto
qed

lemma tryGoogleButton_invisible:
  "\<not> visibleMatch pg s \<Longrightarrow>
   \<not> snd (tryGoogleButton pg s) \<and> (\<forall>s'. Click s' \<notin> set (fst (tryGoogleButton pg s)))"
proof (cases "pg s")
  case (Rejected msg)
  then show ?thesis by (simp add: tryGoogleButton_def block_defs)
next
  case (Resolved found)
  assume nv: "\<not> visibleMatch pg s"
  show ?thesis
  proof (cases found)
    case None
    with Resolved show ?thesis by (simp add: tryGoogleButton_def block_defs)
  next
    case (Some el)
    with Resolved nv have "isVisible el \<noteq> Resolved True"
      by (simp add: visibleMatch_def)
    then have "\<not> orCatch (isVisible el) False"
      by (cases "isVisible el") (auto simp add: orCatch_def)
    with Resolved Some show ?thesis by (simp add: tryGoogleButton_def block_defs)
  qed
qed

lemma tryGoogleButton_visible:
  assumes "pg s = Resolved (Some el)" "isVisible el = Resolved True"
    "scrollIntoViewIfNeeded el = Resolved ()" "click el = Resolved ()"
  shows "tryGoogleButton pg s =
     ([WaitForTimeout 1000, Query s,
       Log INFO (''Found Google login button using selector: '' @ s),
       ScrollIntoView s, WaitForTimeout 500, Click s,
       Log INFO ''Clicked Google login button. Please complete authentication in the browser.'',
       WaitForTimeout 3000], True)"
  using assms by (simp add: tryGoogleButton_def block_defs)

lemma google_loop_first_visible:
  assumes "\<forall>s \<in> set pre. \<not> visibleMatch pg s"
    and "pg sel = Resolved (Some el)" "isVisible el = Resolved True"
    "scrollIntoViewIfNeeded el = Resolved ()" "click el = Resolved ()"
  shows "snd (forEachUntil (tryGoogleButton pg) (pre @ sel # post))
    \<and> filter (\<lambda>ev. \<exists>s. ev = Click s) (fst (forEachUntil (tryGoogleButton pg) (pre @ sel # post)))
        = [Click sel]"
proof -
  have a: "\<forall>s \<in> set pre. \<not> snd (tryGoogleButton pg s)"
    using assms(1) tryGoogleButton_invisible by blast
  have b: "snd (tryGoogleButton pg sel)"
    using tryGoogleButton_visible [of pg sel el, OF assms(2-5)] by simp
  have c: "filter (\<lambda>ev. \<exists>s. ev = Click s) (concat (map (\<lambda>s. fst (tryGoogleButton pg s)) pre)) = []"
    using assms(1) tryGoogleButton_invisible [of pg]
    by (induction pre) (auto simp add: filter_empty_conv)
  show ?thesis
    using forEachUntil_first [of pre "tryGoogleButton pg" sel post, OF a b] c
      tryGoogleButton_visible [of pg sel el, OF assms(2-5)]
    by simp
qed

lemma google_nothing_found:
  "forEachUntil (tryGoogleButton emptyPage) sels =
     (concat (map (\<lambda>sel. [WaitForTimeout 1000, Query sel]) sels), False)"
  by (induction sels) (simp_all add: tryGoogleButton_def emptyPage_def block_defs)

text \<open>
  Claim C6 says that in OAuth mode, when no selector yields a visible control, the
  program takes a diagnostic screenshot and then fails hard when headless, or waits a
  grace window when not headless. The code decides between the two on the variable
  \<open>HEADED\<close>, while the browser is launched headless only for \<open>HEADLESS=true\<close>. With
  neither variable set the browser is launched with a visible window
  (\<open>headless: false\<close>), and on a login page without any Google control
  \<open>handleGoogleLogin\<close> takes the screenshot and throws: the run exits with code 1 and
  the grace window of 60 seconds is never waited.
\<close>

theorem headed_run_fails_without_grace:
  "\<not> useHeadless onlyEmail \<and> USE_GOOGLE_LOGIN onlyEmail
   \<and> handleGoogleLogin onlyEmail loggedOut =
       ([Log INFO ''Looking for Google login button...'',
         Log INFO ''Using default Google login selectors'']
        @ concat (map (\<lambda>sel. [WaitForTimeout 1000, Query sel]) defaultGoogleButtonSelectors)
        @ [Log ERROR ''Could not find Google login button. Taking screenshot for debugging...'',
           Screenshot ''logs/google-button-not-found.png'',
           Log INFO ''Screenshot saved to logs/google-button-not-found.png for debugging''],
        Inl (Error ''Google login button not found. Please check the login page structure or set GOOGLE_LOGIN_SELECTORS in .env''))
   \<and> snd (main onlyEmail loggedOut) = 1
   \<and> LaunchPersistentContext ''logs/browser-data'' False \<in> set (fst (main onlyEmail loggedOut))
   \<and> WaitForTimeout 60000 \<notin> set (fst (main onlyEmail loggedOut))"
proof -
  have g: "handleGoogleLogin onlyEmail loggedOut =
       ([Log INFO ''Looking for Google login button...'',
         Log INFO ''Using default Google login selectors'']
        @ concat (map (\<lambda>sel. [WaitForTimeout 1000, Query sel]) defaultGoogleButtonSelectors)
        @ [Log ERROR ''Could not find Google login button. Taking screenshot for debugging...'',
           Screenshot ''logs/google-button-not-found.png'',
           Log INFO ''Screenshot saved to logs/google-button-not-found.png for debugging''],
        Inl (Error ''Google login button not found. Please check the login page structure or set GOOGLE_LOGIN_SELECTORS in .env''))"
    by (simp add: handleGoogleLogin_def googleButtonSelectors_def google_nothing_found truthy_def
        onlyEmail_def loggedOut_def block_defs)
  have m: "snd (main onlyEmail loggedOut) = 1"
    by (simp add: script_defs block_defs scenario_defs defaultGoogleButtonSelectors_def)
  have l: "LaunchPersistentContext ''logs/browser-data'' False \<in> set (fst (main onlyEmail loggedOut))"
    by (simp add: script_defs block_defs scenario_defs defaultGoogleButtonSelectors_def)
  have n: "WaitForTimeout 60000 \<notin> set (fst (main onlyEmail loggedOut))"
    by (simp add: script_defs block_defs scenario_defs defaultGoogleButtonSelectors_def)
  show ?thesis
    using g m l n
    by (simp add: useHeadless_def USE_GOOGLE_LOGIN_def truthy_def ZOHO_PASSWORD_def onlyEmail_def)
qed

end
